theory Spec2Isabelle
  imports Main "HOL-Library.Word" "HOL-Library.Char_ord" "HOL-Library.List_Lexorder"
begin

section \<open>Run-time type information (package reflect)\<close>

text \<open>
  structflag walks a configuration record by reflection. The model keeps the part of
  \<^verbatim>\<open>reflect.Type\<close>, \<^verbatim>\<open>reflect.StructField\<close> and \<^verbatim>\<open>reflect.Value\<close> that
  \<^verbatim>\<open>structflag.go\<close> reads.
\<close>

datatype kind =
    KInvalid | KBool | KInt | KInt8 | KInt16 | KInt32 | KInt64
  | KUint | KUint8 | KUint16 | KUint32 | KUint64 | KUintptr
  | KFloat32 | KFloat64 | KComplex64 | KComplex128
  | KArray | KChan | KFunc | KInterface | KMap | KPtr | KSlice | KString | KStruct
  | KUnsafePointer

text \<open>
  What a type declaration adds to the underlying kind: the type's name; whether the pointer
  type \<^verbatim>\<open>*T\<close> has the three methods of \<^verbatim>\<open>flag.Value\<close> (Set, String, Type) and, if so,
  whether its \<^verbatim>\<open>String\<close> returns when the receiver is nil (\<open>IsValue True\<close>, as for
  \<^verbatim>\<open>LogLevel\<close> of the tests) or panics there (\<open>IsValue False\<close>); and the text of a
  value-receiver method \<^verbatim>\<open>HelpText\<close> when the type declares one (as \<^verbatim>\<open>LogLevel\<close> does).
  On a receiver that is not nil the methods are taken to return.
\<close>

datatype capability = NoValue | IsValue bool

datatype tinfo = TInfo (tname: string) (valueCap: capability) (helpMethod: "string option")

text \<open>
  Types are finite trees: \<^verbatim>\<open>Plain\<close> covers every kind whose structure the walker never
  enters (scalars, and also maps, channels, functions, interfaces, arrays);
  \<^verbatim>\<open>PtrT\<close>, \<^verbatim>\<open>SliceT\<close> and \<^verbatim>\<open>StructT\<close> are the kinds it does enter.
  A record type that refers to itself through a pointer is not a finite tree and is not
  covered.
\<close>

datatype rtype =
    Plain kind tinfo
  | PtrT rtype
  | SliceT tinfo rtype
  | StructT tinfo "sfield list"
and sfield =
    StructField (sfName: string) (sfPkgPath: string) (sfTag: "(string \<times> string) list")
      (sfAnonymous: bool) (sfType: rtype)

fun Kind :: "rtype \<Rightarrow> kind" where
  "Kind (Plain k i) = k"
| "Kind (PtrT t) = KPtr"
| "Kind (SliceT i t) = KSlice"
| "Kind (StructT i fs) = KStruct"

text \<open>\<^verbatim>\<open>rf.Tag.Lookup(key)\<close>: the value of the first key/value pair of the tag with that key.\<close>

definition Lookup :: "sfield \<Rightarrow> string \<Rightarrow> string option" where
  "Lookup rf key = map_of (sfTag rf) key"

text \<open>\<^verbatim>\<open>rf.IsExported()\<close> is \<^verbatim>\<open>rf.PkgPath == ""\<close>.\<close>

definition IsExported :: "sfield \<Rightarrow> bool" where
  "IsExported rf = (sfPkgPath rf = [])"

section \<open>Values\<close>

text \<open>
  The content of a Go value as the walker can read it. Every signed integer kind is read
  through \<^verbatim>\<open>Value.Int\<close> as 64 bits, every unsigned one through \<^verbatim>\<open>Value.Uint\<close>; a
  float is carried as its 64-bit pattern (the code only copies it). \<^verbatim>\<open>VInvalid\<close> is the
  zero \<^verbatim>\<open>reflect.Value\<close>, \<^verbatim>\<open>VOpaque\<close> any value of a kind the walker does not enter.
\<close>

datatype rvalue =
    VInvalid
  | VBool bool
  | VInt "64 word"
  | VUint "64 word"
  | VFloat "64 word"
  | VString string
  | VPtr "rvalue option"
  | VSlice "rvalue list"
  | VStruct "rvalue list"
  | VOpaque

text \<open>
  Storage is addressed by the way it is reached from the record \<^verbatim>\<open>Build\<close> was given:
  through the field with a given index, or through a pointer. Each pointer field owns what
  it points to; two pointers to one object are not covered.
\<close>

datatype step = FieldAt nat | Deref

type_synonym addr = "step list"

text \<open>
  A \<^verbatim>\<open>reflect.Value\<close>: the content, where it is stored, and the two read-only bits that
  reflect sets on a value obtained through an unexported field (\<^verbatim>\<open>flagStickyRO\<close> for a
  named field, \<^verbatim>\<open>flagEmbedRO\<close> for an embedded one). Every value the walker sees is
  addressable, since \<^verbatim>\<open>Build\<close> starts from a pointer.
\<close>

record Value =
  val :: rvalue
  ptr :: addr
  stickyRO :: bool
  embedRO :: bool

datatype panic =
    NotPointerOfStruct rtype
  | UnsupportedType rtype
  | UnsupportedSliceType rtype
  | ReflectPanic string
  | NilPointerDereference
  | FlagRedefined string
  | ShorthandTooLong string
  | ShorthandRedefined string

definition flagRO :: "Value \<Rightarrow> bool" where
  "flagRO v = (stickyRO v \<or> embedRO v)"

definition CanInterface :: "Value \<Rightarrow> bool" where
  "CanInterface v = (\<not> flagRO v)"

definition CanAddr :: "Value \<Rightarrow> bool" where
  "CanAddr v = True"

text \<open>
  \<^verbatim>\<open>rv.Field(i)\<close>, with \<^verbatim>\<open>rf = rt.Field(i)\<close>: the sticky bit is inherited, and an unexported
  field sets the embed bit when it is embedded and the sticky bit otherwise.
\<close>

definition Field :: "sfield \<Rightarrow> Value \<Rightarrow> nat \<Rightarrow> panic + Value" where
  "Field rf rv i =
     (case val rv of
        VStruct vs \<Rightarrow>
          if i < length vs
          then Inr \<lparr> val = vs ! i, ptr = ptr rv @ [FieldAt i],
                     stickyRO = (stickyRO rv \<or> (\<not> IsExported rf \<and> \<not> sfAnonymous rf)),
                     embedRO = (\<not> IsExported rf \<and> sfAnonymous rf) \<rparr>
          else Inl (ReflectPanic ''reflect: Field index out of range'')
      | _ \<Rightarrow> Inl (ReflectPanic ''reflect: call of reflect.Value.Field on non-struct Value''))"

text \<open>The record after field \<open>i\<close> was changed in place.\<close>

definition SetField :: "Value \<Rightarrow> nat \<Rightarrow> rvalue \<Rightarrow> Value" where
  "SetField rv i x = (case val rv of VStruct vs \<Rightarrow> rv\<lparr>val := VStruct (vs[i := x])\<rparr> | _ \<Rightarrow> rv)"

text \<open>\<^verbatim>\<open>fv.Elem()\<close> of a pointer to \<open>x\<close>; the read-only bits are kept.\<close>

definition Elem :: "Value \<Rightarrow> rvalue \<Rightarrow> Value" where
  "Elem fv x = fv\<lparr>val := x, ptr := ptr fv @ [Deref]\<rparr>"

text \<open>The zero value of a type, which \<^verbatim>\<open>reflect.New\<close> allocates.\<close>

fun Zero :: "rtype \<Rightarrow> rvalue"
and ZeroFields :: "sfield list \<Rightarrow> rvalue list"
and ZeroField :: "sfield \<Rightarrow> rvalue" where
  "Zero (Plain k i) =
     (if k = KBool then VBool False
      else if k \<in> {KInt, KInt8, KInt16, KInt32, KInt64} then VInt 0
      else if k \<in> {KUint, KUint8, KUint16, KUint32, KUint64, KUintptr} then VUint 0
      else if k \<in> {KFloat32, KFloat64} then VFloat 0
      else if k = KString then VString []
      else VOpaque)"
| "Zero (PtrT t) = VPtr None"
| "Zero (SliceT i t) = VSlice []"
| "Zero (StructT i fs) = VStruct (ZeroFields fs)"
| "ZeroFields [] = []"
| "ZeroFields (f # fs) = ZeroField f # ZeroFields fs"
| "ZeroField (StructField n p tg a t) = Zero t"

text \<open>
  \<^verbatim>\<open>fv.Bool()\<close>, \<^verbatim>\<open>fv.Float()\<close>, \<^verbatim>\<open>fv.Int()\<close>, \<^verbatim>\<open>fv.Uint()\<close>, \<^verbatim>\<open>fv.String()\<close>, chosen
  by the kind the caller switched on. A content that does not fit the kind cannot arise
  in Go; the model answers it with a reflect panic.
\<close>

definition accessorPanic :: panic where
  "accessorPanic = ReflectPanic ''reflect: call of a Value accessor on a Value of another kind''"

definition readAs :: "kind \<Rightarrow> rvalue \<Rightarrow> panic + rvalue" where
  "readAs k v =
     (case v of
        VBool b \<Rightarrow> if k = KBool then Inr (VBool b) else Inl accessorPanic
      | VFloat x \<Rightarrow> if k = KFloat64 then Inr (VFloat x) else Inl accessorPanic
      | VInt x \<Rightarrow> if k = KInt64 \<or> k = KInt then Inr (VInt x) else Inl accessorPanic
      | VString s \<Rightarrow> if k = KString then Inr (VString s) else Inl accessorPanic
      | VUint x \<Rightarrow> if k = KUint64 \<or> k = KUint then Inr (VUint x) else Inl accessorPanic
      | _ \<Rightarrow> Inl accessorPanic)"

text \<open>
  The loop \<^verbatim>\<open>for i := 0; i < fv.Len(); i++ { defaultValue = append(defaultValue, fv.Index(i).X()) }\<close>.
\<close>

fun readAll :: "kind \<Rightarrow> rvalue list \<Rightarrow> panic + rvalue list" where
  "readAll k [] = Inr []"
| "readAll k (x # xs) =
     (case readAs k x of
        Inl p \<Rightarrow> Inl p
      | Inr y \<Rightarrow> (case readAll k xs of Inl p \<Rightarrow> Inl p | Inr ys \<Rightarrow> Inr (y # ys)))"

definition readSlice :: "kind \<Rightarrow> Value \<Rightarrow> panic + rvalue" where
  "readSlice k fv =
     (case val fv of
        VSlice xs \<Rightarrow> (case readAll k xs of Inl p \<Rightarrow> Inl p | Inr ys \<Rightarrow> Inr (VSlice ys))
      | _ \<Rightarrow> Inl (ReflectPanic ''reflect: call of reflect.Value.Len on a Value of another kind''))"

fun info :: "rtype \<Rightarrow> tinfo option" where
  "info (Plain k i) = Some i"
| "info (PtrT t) = None"
| "info (SliceT i t) = Some i"
| "info (StructT i fs) = Some i"

text \<open>\<^verbatim>\<open>rt.Name()\<close>: empty for an unnamed type.\<close>

definition typeName :: "rtype \<Rightarrow> string" where
  "typeName rt = (case info rt of None \<Rightarrow> [] | Some i \<Rightarrow> tname i)"

definition rTimeDurationType :: rtype where
  "rTimeDurationType = Plain KInt64 (TInfo ''time.Duration'' NoValue None)"

text \<open>
  The capability check of \<^verbatim>\<open>walkField\<close>: for a field of non-pointer type \<^verbatim>\<open>T\<close> the type
  tested is \<^verbatim>\<open>reflect.PtrTo(T)\<close>, for a field of pointer type it is the field type itself.
  A pointer to a pointer has no methods.
\<close>

definition ptrHasValueMethods :: "rtype \<Rightarrow> bool" where
  "ptrHasValueMethods t = (case info t of None \<Rightarrow> False | Some i \<Rightarrow> valueCap i \<noteq> NoValue)"

text \<open>Whether \<^verbatim>\<open>String\<close> of \<^verbatim>\<open>*T\<close> returns on a nil receiver.\<close>

definition nilSafeString :: "rtype \<Rightarrow> bool" where
  "nilSafeString t = (case info t of None \<Rightarrow> False | Some i \<Rightarrow> valueCap i = IsValue True)"

definition implementsValue :: "rtype \<Rightarrow> bool" where
  "implementsValue rt = (case rt of PtrT t \<Rightarrow> ptrHasValueMethods t | _ \<Rightarrow> ptrHasValueMethods rt)"

text \<open>
  \<^verbatim>\<open>fv.Interface().(HasHelpText)\<close> followed by \<^verbatim>\<open>impl.HelpText()\<close>: \<^verbatim>\<open>None\<close> when the
  assertion fails. The method set of \<^verbatim>\<open>*T\<close> holds the value-receiver methods of \<^verbatim>\<open>T\<close>;
  calling one through a nil pointer is a run-time panic.
\<close>

definition HelpTextImpl :: "rtype \<Rightarrow> rvalue \<Rightarrow> (panic + string) option" where
  "HelpTextImpl rt x =
     (case rt of
        PtrT t \<Rightarrow>
          (case info t of
             None \<Rightarrow> None
           | Some i \<Rightarrow>
               (case helpMethod i of
                  None \<Rightarrow> None
                | Some s \<Rightarrow> Some (if x = VPtr None then Inl NilPointerDereference else Inr s)))
      | _ \<Rightarrow>
          (case info rt of
             None \<Rightarrow> None
           | Some i \<Rightarrow> map_option Inr (helpMethod i)))"

section \<open>Configuration\<close>

datatype ErrorHandling = ContinueOnError | ExitOnError | PanicOnError

text \<open>
  \<^verbatim>\<open>EnvNameFunc\<close> of \<^verbatim>\<open>DefaultConfig\<close> is a closure over the configuration itself and
  reads \<^verbatim>\<open>c.EnvPrefix\<close> when it is called; the model passes the current prefix as the
  first argument.
\<close>

record Config =
  HandlingMode :: ErrorHandling
  EnvvarSupport :: bool
  EnvPrefix :: string
  EnvNameFunc :: "string \<Rightarrow> string \<Rightarrow> string"
  FlagnameTags :: "string list"
  FlagNameFunc :: "string \<Rightarrow> string"
  ShorthandTag :: string
  HelpTextTag :: string

record Builder = Config +
  BuilderName :: string

text \<open>The process environment: \<^verbatim>\<open>os.Getenv\<close> gives the empty string for an unset variable.\<close>

type_synonym environ = "string \<Rightarrow> string option"

definition Getenv :: "environ \<Rightarrow> string \<Rightarrow> string" where
  "Getenv env key = (case env key of None \<Rightarrow> [] | Some v \<Rightarrow> v)"

text \<open>
  The string functions of \<^verbatim>\<open>DefaultConfig\<close>. Strings are byte sequences (UTF-8). Package
  strings works bytewise on ASCII text and turns to the Unicode tables when it meets a byte
  outside ASCII; the three functions it turns to are parameters:
  \<^verbatim>\<open>strings.Map(unicode.ToUpper, s)\<close>, \<^verbatim>\<open>strings.TrimFunc(s, unicode.IsSpace)\<close> and
  \<^verbatim>\<open>strings.TrimRightFunc(s, unicode.IsSpace)\<close>.
\<close>

record unicodeLib =
  MapToUpper :: "string \<Rightarrow> string"
  TrimFuncSpace :: "string \<Rightarrow> string"
  TrimRightFuncSpace :: "string \<Rightarrow> string"

definition isASCII :: "char \<Rightarrow> bool" where
  "isASCII c = (\<not> digit7 c)"

definition upper_char :: "char \<Rightarrow> char" where
  "upper_char c =
     (case map_of (zip ''abcdefghijklmnopqrstuvwxyz'' ''ABCDEFGHIJKLMNOPQRSTUVWXYZ'') c of
        Some u \<Rightarrow> u
      | None \<Rightarrow> c)"

text \<open>\<^verbatim>\<open>strings.ToUpper\<close>: bytewise when every byte is ASCII.\<close>

definition ToUpper :: "unicodeLib \<Rightarrow> string \<Rightarrow> string" where
  "ToUpper U s = (if list_all isASCII s then map upper_char s else MapToUpper U s)"

text \<open>\<^verbatim>\<open>strings.ReplaceAll(s, old, new)\<close> for one-byte \<^verbatim>\<open>old\<close> and \<^verbatim>\<open>new\<close>.\<close>

definition ReplaceAll1 :: "string \<Rightarrow> char \<Rightarrow> char \<Rightarrow> string" where
  "ReplaceAll1 s old new = map (\<lambda>c. if c = old then new else c) s"

definition is_space :: "char \<Rightarrow> bool" where
  "is_space c = (c \<in> set [CHR 0x09, CHR 0x0A, CHR 0x0B, CHR 0x0C, CHR 0x0D, CHR 0x20])"

text \<open>
  \<^verbatim>\<open>strings.TrimSpace\<close>: ASCII white space is dropped from the front; when the first byte
  left is outside ASCII the rest goes to \<^verbatim>\<open>TrimFunc\<close>; otherwise ASCII white space is
  dropped from the back, and when the last byte left is outside ASCII what is left goes to
  \<^verbatim>\<open>TrimRightFunc\<close>.
\<close>

definition TrimSpace :: "unicodeLib \<Rightarrow> string \<Rightarrow> string" where
  "TrimSpace U s =
     (case dropWhile is_space s of
        [] \<Rightarrow> []
      | c # cs \<Rightarrow>
          if \<not> isASCII c then TrimFuncSpace U (c # cs)
          else (case dropWhile is_space (rev (c # cs)) of
                  [] \<Rightarrow> []
                | d # ds \<Rightarrow>
                    if \<not> isASCII d then TrimRightFuncSpace U (rev (d # ds))
                    else rev (d # ds)))"

definition defaultEnvName :: "unicodeLib \<Rightarrow> string \<Rightarrow> string \<Rightarrow> string" where
  "defaultEnvName U prefix name =
     prefix @ ReplaceAll1 (ReplaceAll1 (ToUpper U name) (CHR ''-'') (CHR ''_'')) (CHR ''.'') (CHR ''_'')"

text \<open>\<^verbatim>\<open>strings.SplitN(v, ",", 2)[0]\<close> is the text before the first comma.\<close>

definition defaultFlagName :: "unicodeLib \<Rightarrow> string \<Rightarrow> string" where
  "defaultFlagName U v =
     (if CHR '','' \<in> set v then TrimSpace U (takeWhile (\<lambda>c. c \<noteq> CHR '','') v) else v)"

definition DefaultConfig :: "unicodeLib \<Rightarrow> environ \<Rightarrow> Config" where
  "DefaultConfig U env =
     \<lparr> HandlingMode = ExitOnError,
       EnvvarSupport = True,
       EnvPrefix = (if Getenv env ''ENV_PREFIX'' \<noteq> [] then Getenv env ''ENV_PREFIX'' else []),
       EnvNameFunc = defaultEnvName U,
       FlagnameTags = [''flag''],
       FlagNameFunc = defaultFlagName U,
       ShorthandTag = ''short'',
       HelpTextTag = ''help'' \<rparr>"

text \<open>\<^verbatim>\<open>NewBuilder\<close>: the name is \<^verbatim>\<open>os.Args[0]\<close>, passed in as \<open>arg0\<close>.\<close>

definition NewBuilder :: "unicodeLib \<Rightarrow> string \<Rightarrow> environ \<Rightarrow> Builder" where
  "NewBuilder U arg0 env = Config.extend (DefaultConfig U env) (Builder.fields arg0)"

section \<open>Field metadata\<close>

text \<open>
  The loop at the head of \<^verbatim>\<open>Builder.walk\<close>:
  \<^verbatim>\<open>for j := len(b.FlagnameTags) - 1; j >= 0; j-- { if v, ok := rf.Tag.Lookup(b.FlagnameTags[j]); ok { fieldname = v; hasFlagname = true } }\<close>.
  The index runs from the last configured tag down to the first.
\<close>

definition tagStep :: "sfield \<Rightarrow> string \<times> bool \<Rightarrow> string \<Rightarrow> string \<times> bool" where
  "tagStep rf acc tag = (case Lookup rf tag of Some v \<Rightarrow> (v, True) | None \<Rightarrow> acc)"

definition lookupFlagname :: "string list \<Rightarrow> sfield \<Rightarrow> string \<times> bool" where
  "lookupFlagname tags rf = foldl (tagStep rf) (sfName rf, False) (rev tags)"

section \<open>The flag engine\<close>

text \<open>
  The flag engine (package pflag) is not part of the repository. The model keeps its table
  of registered flags, what registration rejects, \<^verbatim>\<open>FlagSet.Set\<close> and \<^verbatim>\<open>VisitAll\<close>; how
  the engine splits an argument list into flags and how a value type reads a text are
  parameters (see \<open>engine\<close> below).

  Each registered flag aliases the storage it was bound to: \<open>Bound\<close> holds the address of
  that storage and its current content, and is \<open>None\<close> for a custom value registered
  through a nil pointer. A field that got no flag is never written by the engine.
\<close>

datatype regop =
    BoolVarP | Float64VarP | DurationVarP | Int64VarP | IntVarP | StringVarP
  | Uint64VarP | UintVarP
  | BoolSliceVarP | Float64SliceVarP | DurationSliceVarP | Int64SliceVarP | IntSliceVarP
  | StringSliceVarP | UintSliceVarP
  | ValueVarP string

record Flag =
  Name :: string
  Shorthand :: string
  Usage :: string
  Op :: regop
  Default :: "rvalue option"
  Bound :: "(addr \<times> rvalue) option"
  Changed :: bool

record pFlagSet =
  fsName :: string
  errorHandling :: ErrorHandling
  formal :: "Flag list"
  SortFlags :: bool

definition NewFlagSet :: "string \<Rightarrow> ErrorHandling \<Rightarrow> pFlagSet" where
  "NewFlagSet name mode =
     \<lparr> fsName = name, errorHandling = mode, formal = [], SortFlags = True \<rparr>"

text \<open>
  \<^verbatim>\<open>AddFlag\<close> panics when the name is registered already, when the shorthand has more than
  one character, and when the shorthand is in use.
\<close>

definition AddFlag :: "pFlagSet \<Rightarrow> Flag \<Rightarrow> panic + pFlagSet" where
  "AddFlag fs f =
     (if Name f \<in> set (map Name (formal fs)) then Inl (FlagRedefined (Name f))
      else if Shorthand f = [] then Inr (fs\<lparr>formal := formal fs @ [f]\<rparr>)
      else if 1 < length (Shorthand f) then Inl (ShorthandTooLong (Shorthand f))
      else if Shorthand f \<in> set (map Shorthand (formal fs)) then Inl (ShorthandRedefined (Shorthand f))
      else Inr (fs\<lparr>formal := formal fs @ [f]\<rparr>))"

text \<open>\<^verbatim>\<open>fs.VarP(value, name, shorthand, usage)\<close>, with the receiver the value is bound to.\<close>

definition VarP ::
  "pFlagSet \<Rightarrow> regop \<Rightarrow> (addr \<times> rvalue) option \<Rightarrow> rvalue option \<Rightarrow> string \<Rightarrow> string \<Rightarrow> string
     \<Rightarrow> panic + pFlagSet" where
  "VarP fs op b d name short usage =
     AddFlag fs \<lparr> Name = name, Shorthand = short, Usage = usage, Op = op, Default = d,
                  Bound = b, Changed = False \<rparr>"

text \<open>
  The typed registrations (\<^verbatim>\<open>BoolVarP(p, name, shorthand, value, usage)\<close> and its
  siblings): the default is stored at \<open>p\<close> and the flag is bound to \<open>p\<close>.
\<close>

definition typedVarP ::
  "pFlagSet \<Rightarrow> regop \<Rightarrow> addr \<Rightarrow> string \<Rightarrow> string \<Rightarrow> rvalue \<Rightarrow> string \<Rightarrow> panic + pFlagSet" where
  "typedVarP fs op p name short value usage =
     VarP fs op (Some (p, value)) (Some value) name short usage"

definition lookupFlag :: "pFlagSet \<Rightarrow> string \<Rightarrow> Flag option" where
  "lookupFlag fs name = find (\<lambda>f. Name f = name) (formal fs)"

text \<open>The content of the storage a flag aliases.\<close>

definition stored :: "Flag \<Rightarrow> rvalue option" where
  "stored f = map_option snd (Bound f)"

text \<open>
  What is outside the model: \<open>parseArgs\<close> is \<^verbatim>\<open>pflag.FlagSet.Parse\<close> where it returns (the
  error, and the flags as it left them); \<open>valueSet f text x\<close> is what \<^verbatim>\<open>FlagSet.Set\<close>
  reports for flag \<open>f\<close> and leaves in its storage, which held \<open>x\<close>; \<open>nilSet\<close> is the same
  for a custom value whose receiver is nil, which has no storage to write.
\<close>

record valueOps =
  valueSet :: "Flag \<Rightarrow> string \<Rightarrow> rvalue \<Rightarrow> string option \<times> rvalue"
  nilSet :: "Flag \<Rightarrow> string \<Rightarrow> string option"

record engine = valueOps +
  parseArgs :: "pFlagSet \<Rightarrow> string list \<Rightarrow> string option \<times> pFlagSet"

definition setFlag :: "'a valueOps_scheme \<Rightarrow> Flag \<Rightarrow> string \<Rightarrow> string option \<times> Flag" where
  "setFlag E f text =
     (case Bound f of
        None \<Rightarrow>
          (case nilSet E f text of
             None \<Rightarrow> (None, f\<lparr>Changed := True\<rparr>)
           | Some err \<Rightarrow> (Some err, f))
      | Some (a, x) \<Rightarrow>
          (case valueSet E f text x of
             (None, x') \<Rightarrow> (None, f\<lparr>Bound := Some (a, x'), Changed := True\<rparr>)
           | (Some err, x') \<Rightarrow> (Some err, f\<lparr>Bound := Some (a, x')\<rparr>)))"

text \<open>\<^verbatim>\<open>fs.Set(name, value)\<close>.\<close>

definition FlagSet_Set :: "'a valueOps_scheme \<Rightarrow> pFlagSet \<Rightarrow> string \<Rightarrow> string \<Rightarrow> string option \<times> pFlagSet" where
  "FlagSet_Set E fs name text =
     (case lookupFlag fs name of
        None \<Rightarrow> (Some (''no such flag -'' @ name), fs)
      | Some f \<Rightarrow>
          (fst (setFlag E f text),
           fs\<lparr>formal := map (\<lambda>g. if Name g = name then snd (setFlag E f text) else g) (formal fs)\<rparr>))"

text \<open>
  \<^verbatim>\<open>VisitAll\<close> goes through the flags in the order of their names, or in the order of
  registration when \<^verbatim>\<open>SortFlags\<close> was switched off.
\<close>

definition VisitAll :: "pFlagSet \<Rightarrow> Flag list" where
  "VisitAll fs = (if SortFlags fs then sort_key Name (formal fs) else formal fs)"

section \<open>The walker\<close>

record fieldcontext =
  fieldname :: string
  helpText :: string
  shorthand :: string
  prefix :: string
  hasFlagname :: bool
  field :: sfield

definition helpTextOf :: "Builder \<Rightarrow> sfield \<Rightarrow> Value \<Rightarrow> panic + string" where
  "helpTextOf b rf fv =
     (case Lookup rf (HelpTextTag b) of
        Some v \<Rightarrow> Inr v
      | None \<Rightarrow>
          if CanInterface fv
          then (case HelpTextImpl (sfType rf) (val fv) of None \<Rightarrow> Inr ''-'' | Some r \<Rightarrow> r)
          else Inr ''-'')"

text \<open>
  The body of the loop of \<^verbatim>\<open>Builder.walk\<close> up to the call of \<^verbatim>\<open>walkField\<close>: \<open>None\<close> is
  \<^verbatim>\<open>continue\<close>, otherwise the context handed to \<^verbatim>\<open>walkField\<close> (or the panic of a
  \<^verbatim>\<open>HelpText\<close> method).
\<close>

definition fieldcontextOf ::
  "Builder \<Rightarrow> sfield \<Rightarrow> Value \<Rightarrow> string \<Rightarrow> (panic + fieldcontext) option" where
  "fieldcontextOf b rf fv pre =
     (let found = lookupFlagname (FlagnameTags b) rf in
      if fst found = ''-'' then None
      else if \<not> snd found \<and> \<not> IsExported rf then None
      else
        (let name = FlagNameFunc b (pre @ fst found) in
         case helpTextOf b rf fv of
           Inl p \<Rightarrow> Some (Inl p)
         | Inr h \<Rightarrow>
             Some (Inr \<lparr> fieldname = name,
                         helpText = (if EnvvarSupport b
                                     then ''ENV: '' @ EnvNameFunc b (EnvPrefix b) name @ [CHR 0x09] @ h
                                     else h),
                         shorthand = (case Lookup rf (ShorthandTag b) of
                                        Some v \<Rightarrow> if pre = [] then v else []
                                      | None \<Rightarrow> []),
                         prefix = pre,
                         hasFlagname = snd found,
                         field = rf \<rparr>)))"

text \<open>
  The capability branch of \<^verbatim>\<open>walkField\<close>: \<^verbatim>\<open>reflect.ValueOf(fs.VarP).Call(...)\<close> with the
  address of the field, or with the field itself when it is a pointer. \<^verbatim>\<open>Call\<close> refuses an
  argument obtained through an unexported field. The engine's \<^verbatim>\<open>VarP\<close> then calls
  \<^verbatim>\<open>value.String()\<close> to record the default text, before it adds the flag; for a nil
  pointer that is \<^verbatim>\<open>String\<close> on a nil receiver.
\<close>

definition receiver :: "rtype \<Rightarrow> Value \<Rightarrow> (addr \<times> rvalue) option" where
  "receiver rt fv =
     (case rt of
        PtrT t \<Rightarrow> (case val fv of VPtr (Some x) \<Rightarrow> Some (ptr fv @ [Deref], x) | _ \<Rightarrow> None)
      | _ \<Rightarrow> Some (ptr fv, val fv))"

definition valueTypeName :: "rtype \<Rightarrow> string" where
  "valueTypeName rt = (case rt of PtrT t \<Rightarrow> typeName t | _ \<Rightarrow> typeName rt)"

definition stringPanics :: "rtype \<Rightarrow> Value \<Rightarrow> bool" where
  "stringPanics rt fv =
     (case rt of PtrT t \<Rightarrow> receiver rt fv = None \<and> \<not> nilSafeString t | _ \<Rightarrow> False)"

definition callVarP :: "pFlagSet \<Rightarrow> rtype \<Rightarrow> Value \<Rightarrow> fieldcontext \<Rightarrow> panic + pFlagSet \<times> Value" where
  "callVarP fs rt fv c =
     (if flagRO fv
      then Inl (ReflectPanic ''reflect: reflect.Value.Call using value obtained using unexported field'')
      else if stringPanics rt fv then Inl NilPointerDereference
      else case VarP fs (ValueVarP (valueTypeName rt)) (receiver rt fv) None
                  (fieldname c) (shorthand c) (helpText c) of
             Inl p \<Rightarrow> Inl p
           | Inr fs' \<Rightarrow> Inr (fs', fv))"

text \<open>
  The head of the \<^verbatim>\<open>reflect.Ptr\<close> case: \<open>None\<close> is the early \<^verbatim>\<open>return\<close> for a nil pointer
  without a flag-name tag; otherwise the content \<^verbatim>\<open>fv.Elem()\<close> will have, after
  \<^verbatim>\<open>fv.Set(reflect.New(rt.Elem()))\<close> for a nil pointer. \<^verbatim>\<open>Set\<close> refuses a value obtained
  through an unexported field.
\<close>

definition ptrTarget :: "rtype \<Rightarrow> Value \<Rightarrow> fieldcontext \<Rightarrow> (panic + rvalue) option" where
  "ptrTarget t fv c =
     (case val fv of
        VPtr None \<Rightarrow>
          if CanAddr fv
          then (if \<not> hasFlagname c then None
                else if flagRO fv
                then Some (Inl (ReflectPanic ''reflect: reflect.Value.Set using value obtained using unexported field''))
                else Some (Inr (Zero t)))
          else Some (Inl (ReflectPanic ''reflect: call of reflect.Value.Type on zero Value''))
      | VPtr (Some x) \<Rightarrow> Some (Inr x)
      | _ \<Rightarrow> Some (Inl (ReflectPanic ''reflect: call of reflect.Value.IsNil on a Value of another kind'')))"

text \<open>One typed registration: read the default, register, and the storage holds the default.\<close>

definition bindVar ::
  "pFlagSet \<Rightarrow> regop \<Rightarrow> Value \<Rightarrow> fieldcontext \<Rightarrow> panic + rvalue \<Rightarrow> panic + pFlagSet \<times> Value" where
  "bindVar fs op fv c d =
     (case d of
        Inl p \<Rightarrow> Inl p
      | Inr x \<Rightarrow>
          (case typedVarP fs op (ptr fv) (fieldname c) (shorthand c) x (helpText c) of
             Inl p \<Rightarrow> Inl p
           | Inr fs' \<Rightarrow> Inr (fs', fv\<lparr>val := x\<rparr>)))"

text \<open>The cases of the \<^verbatim>\<open>switch rt.Kind()\<close> of \<^verbatim>\<open>walkField\<close> other than Ptr and Struct.\<close>

definition bindLeaf :: "pFlagSet \<Rightarrow> rtype \<Rightarrow> Value \<Rightarrow> fieldcontext \<Rightarrow> panic + pFlagSet \<times> Value" where
  "bindLeaf fs rt fv c =
     (case Kind rt of
        KBool \<Rightarrow> bindVar fs BoolVarP fv c (readAs KBool (val fv))
      | KFloat64 \<Rightarrow> bindVar fs Float64VarP fv c (readAs KFloat64 (val fv))
      | KInt64 \<Rightarrow>
          if rt = rTimeDurationType
          then bindVar fs DurationVarP fv c (readAs KInt64 (val fv))
          else bindVar fs Int64VarP fv c (readAs KInt64 (val fv))
      | KInt \<Rightarrow> bindVar fs IntVarP fv c (readAs KInt (val fv))
      | KString \<Rightarrow> bindVar fs StringVarP fv c (readAs KString (val fv))
      | KUint64 \<Rightarrow> bindVar fs Uint64VarP fv c (readAs KUint64 (val fv))
      | KUint \<Rightarrow> bindVar fs UintVarP fv c (readAs KUint (val fv))
      | KSlice \<Rightarrow>
          (case rt of
             SliceT i et \<Rightarrow>
               (case Kind et of
                  KBool \<Rightarrow> bindVar fs BoolSliceVarP fv c (readSlice KBool fv)
                | KFloat64 \<Rightarrow> bindVar fs Float64SliceVarP fv c (readSlice KFloat64 fv)
                | KInt64 \<Rightarrow>
                    if et = rTimeDurationType
                    then bindVar fs DurationSliceVarP fv c (readSlice KInt64 fv)
                    else bindVar fs Int64SliceVarP fv c (readSlice KInt64 fv)
                | KInt \<Rightarrow> bindVar fs IntSliceVarP fv c (readSlice KInt fv)
                | KString \<Rightarrow> bindVar fs StringSliceVarP fv c (readSlice KString fv)
                | KUint \<Rightarrow> bindVar fs UintSliceVarP fv c (readSlice KUint fv)
                | _ \<Rightarrow> Inl (UnsupportedSliceType rt))
           | _ \<Rightarrow> Inl (ReflectPanic ''reflect: Elem of invalid type''))
      | _ \<Rightarrow> Inl (UnsupportedType rt))"

text \<open>
  \<^verbatim>\<open>Builder.walk\<close> and \<^verbatim>\<open>Builder.walkField\<close>. \<open>walkFrom\<close> is the loop of \<^verbatim>\<open>walk\<close> from index
  \<open>i\<close> on, over the fields still to visit; both return the flag set and the visited value
  as the walk left it.
\<close>

function walkFrom ::
  "Builder \<Rightarrow> pFlagSet \<Rightarrow> sfield list \<Rightarrow> nat \<Rightarrow> Value \<Rightarrow> string \<Rightarrow> panic + pFlagSet \<times> Value"
and walkField ::
  "Builder \<Rightarrow> pFlagSet \<Rightarrow> rtype \<Rightarrow> Value \<Rightarrow> fieldcontext \<Rightarrow> panic + pFlagSet \<times> Value"
where
  "walkFrom b fs [] i rv pre = Inr (fs, rv)"
| "walkFrom b fs (rf # rest) i rv pre =
     (case Field rf rv i of
        Inl p \<Rightarrow> Inl p
      | Inr fv \<Rightarrow>
          (case fieldcontextOf b rf fv pre of
             None \<Rightarrow> walkFrom b fs rest (Suc i) rv pre
           | Some (Inl p) \<Rightarrow> Inl p
           | Some (Inr c) \<Rightarrow>
               (case walkField b fs (sfType rf) fv c of
                  Inl p \<Rightarrow> Inl p
                | Inr r \<Rightarrow> walkFrom b (fst r) rest (Suc i) (SetField rv i (val (snd r))) pre)))"
| "walkField b fs rt fv c =
     (if implementsValue rt then callVarP fs rt fv c
      else case rt of
        PtrT t \<Rightarrow>
          (case ptrTarget t fv c of
             None \<Rightarrow> Inr (fs, fv)
           | Some (Inl p) \<Rightarrow> Inl p
           | Some (Inr x) \<Rightarrow>
               (case walkField b fs t (Elem fv x) c of
                  Inl p \<Rightarrow> Inl p
                | Inr r \<Rightarrow> Inr (fst r, fv\<lparr>val := VPtr (Some (val (snd r)))\<rparr>)))
      | StructT i sfs \<Rightarrow>
          if sfAnonymous (field c)
          then walkFrom b fs sfs 0 fv (prefix c)
          else walkFrom b fs sfs 0 fv (prefix c @ fieldname c @ ''.'')
      | _ \<Rightarrow> bindLeaf fs rt fv c)"
  by pat_completeness auto

termination
proof (relation "measure (\<lambda>x. case x of
          Inl (b, fs, rfs, i, rv, pre) \<Rightarrow> size_list size rfs
        | Inr (b, fs, rt, fv, c) \<Rightarrow> size rt)", goal_cases)
  case (3 b fs rf rest i rv pre fv x c)
  then show ?case by (cases rf) simp
qed simp_all

definition walk :: "Builder \<Rightarrow> pFlagSet \<Rightarrow> rtype \<Rightarrow> Value \<Rightarrow> string \<Rightarrow> panic + pFlagSet \<times> Value" where
  "walk b fs rt rv pre =
     (case rt of
        StructT i sfs \<Rightarrow> walkFrom b fs sfs 0 rv pre
      | _ \<Rightarrow> Inl (ReflectPanic ''reflect: NumField of non-struct type''))"

section \<open>Build and Parse\<close>

record FlagSet =
  flagSet :: pFlagSet
  builder :: Builder

text \<open>
  \<^verbatim>\<open>Build(o)\<close>, for \<open>o\<close> of type \<open>rt\<close> and content \<open>ov\<close>; the result is the bound flag set
  and \<open>o\<close> as Build left it (nil pointers with a flag-name tag are allocated).
\<close>

definition Build :: "Builder \<Rightarrow> rtype \<Rightarrow> rvalue \<Rightarrow> panic + FlagSet \<times> rvalue" where
  "Build b rt ov =
     (case rt of
        PtrT et \<Rightarrow>
          (let rv = \<lparr> val = (case ov of VPtr (Some x) \<Rightarrow> x | _ \<Rightarrow> VInvalid), ptr = [],
                      stickyRO = False, embedRO = False \<rparr>;
               name = (if BuilderName b = [] then typeName et else BuilderName b);
               fs = NewFlagSet name (HandlingMode b)
           in case walk b fs et rv [] of
                Inl p \<Rightarrow> Inl p
              | Inr r \<Rightarrow>
                  Inr (\<lparr> flagSet = fst r, builder = b \<rparr>,
                       (case ov of VPtr (Some x) \<Rightarrow> VPtr (Some (val (snd r))) | _ \<Rightarrow> ov)))
      | _ \<Rightarrow> Inl (NotPointerOfStruct rt))"

text \<open>
  The function handed to \<^verbatim>\<open>VisitAll\<close> in \<^verbatim>\<open>Parse\<close>, on the pair of \<^verbatim>\<open>retErr\<close> and the flag
  set; \<^verbatim>\<open>fmt.Errorf("on envvar %s=%v, %+v", envname, v, err)\<close> is written out.
\<close>

definition envError :: "string \<Rightarrow> string \<Rightarrow> string \<Rightarrow> string" where
  "envError envname v err = ''on envvar '' @ envname @ ''='' @ v @ '', '' @ err"

definition overlay ::
  "engine \<Rightarrow> environ \<Rightarrow> Builder \<Rightarrow> string option \<times> pFlagSet \<Rightarrow> Flag \<Rightarrow> string option \<times> pFlagSet" where
  "overlay E env b st f =
     (let envname = EnvNameFunc b (EnvPrefix b) (Name f);
          v = Getenv env envname
      in if v \<noteq> []
         then (case FlagSet_Set E (snd st) (Name f) v of
                 (Some err, fs') \<Rightarrow> (Some (envError envname v err), fs')
               | (None, fs') \<Rightarrow> (fst st, fs'))
         else st)"

definition Parse :: "engine \<Rightarrow> environ \<Rightarrow> FlagSet \<Rightarrow> string list \<Rightarrow> string option \<times> FlagSet" where
  "Parse E env fs args =
     (case parseArgs E (flagSet fs) args of
        (Some err, p) \<Rightarrow> (Some err, fs\<lparr>flagSet := p\<rparr>)
      | (None, p) \<Rightarrow>
          if EnvvarSupport (builder fs)
          then (let st = foldl (overlay E env (builder fs)) (None, p) (VisitAll p)
                in (fst st, fs\<lparr>flagSet := snd st\<rparr>))
          else (None, fs\<lparr>flagSet := p\<rparr>))"

section \<open>The custom value type and the arguments of the tests\<close>

text \<open>
  \<^verbatim>\<open>LogLevel\<close> of \<^verbatim>\<open>structflag_test.go\<close>: a string type whose pointer implements
  \<^verbatim>\<open>pflag.Value\<close> and whose values implement \<^verbatim>\<open>HasHelpText\<close>.
\<close>

definition LogLevelType :: rtype where
  "LogLevelType = Plain KString (TInfo ''LogLevel'' (IsValue True) (Some ''log level {DEBUG, INFO, WARN, ERROR}''))"

definition LogLevel_Validate :: "string \<Rightarrow> string option" where
  "LogLevel_Validate v =
     (if v = ''DEBUG'' \<or> v = ''INFO'' \<or> v = ''WARN'' \<or> v = ''ERROR'' then None
      else Some (v @ '' is an invalid value for structflag_test.LogLevel''))"

text \<open>
  \<^verbatim>\<open>func (v *LogLevel) Set(value string) error\<close>, on the content the receiver points to
  (\<open>None\<close> for a nil receiver): the new content is stored first and validated after.
\<close>

definition LogLevel_Set :: "unicodeLib \<Rightarrow> rvalue option \<Rightarrow> string \<Rightarrow> string option \<times> rvalue option" where
  "LogLevel_Set U recv text =
     (case recv of
        None \<Rightarrow> (Some ''nil is invalid for *structflag_test.LogLevel'', None)
      | Some x \<Rightarrow> (LogLevel_Validate (ToUpper U text), Some (VString (ToUpper U text))))"

text \<open>
  An instance of the engine's parameters, enough to run the tests' string, integer
  sequence and \<^verbatim>\<open>LogLevel\<close> flags. \<^verbatim>\<open>FlagSet.Set\<close> wraps the error of the value's \<^verbatim>\<open>Set\<close>
  with the argument and the flag's name. The \<^verbatim>\<open>Set\<close> of a string flag stores the text. The
  \<^verbatim>\<open>Set\<close> of an integer sequence splits the text at commas and reads each part as a decimal
  number; the first successful \<^verbatim>\<open>Set\<close> replaces the sequence and every later one appends to
  it (the test \<^verbatim>\<open>types--int-slice\<close> relies on it: \<^verbatim>\<open>-n 20 -n 30\<close> gives 20, 30). The
  value's own mark of having been set changes together with \<open>Changed\<close> of the flag, which
  stands for it. The argument list is read in the forms \<^verbatim>\<open>--name value\<close> and
  \<^verbatim>\<open>--name=value\<close>. Other value types and argument forms are left to the engine proper
  and are answered here with an error.
\<close>

definition quote :: "string \<Rightarrow> string" where
  "quote s = [CHR 0x22] @ s @ [CHR 0x22]"

definition setError :: "Flag \<Rightarrow> string \<Rightarrow> string \<Rightarrow> string" where
  "setError f text err =
     ''invalid argument '' @ quote text @ '' for ''
       @ quote (if Shorthand f \<noteq> [] then ''-'' @ Shorthand f @ '', --'' @ Name f else ''--'' @ Name f)
       @ '' flag: '' @ err"

text \<open>\<^verbatim>\<open>strings.Split(val, ",")\<close> and \<^verbatim>\<open>strconv.Atoi\<close>.\<close>

fun splitComma :: "string \<Rightarrow> string list" where
  "splitComma [] = [[]]"
| "splitComma (c # cs) =
     (if c = CHR '','' then [] # splitComma cs
      else (case splitComma cs of [] \<Rightarrow> [[c]] | w # ws \<Rightarrow> (c # w) # ws))"

definition digitOf :: "char \<Rightarrow> nat option" where
  "digitOf c = map_of (zip ''0123456789'' [0, 1, 2, 3, 4, 5, 6, 7, 8, 9]) c"

fun digits :: "nat \<Rightarrow> string \<Rightarrow> nat option" where
  "digits n [] = Some n"
| "digits n (c # cs) = (case digitOf c of None \<Rightarrow> None | Some d \<Rightarrow> digits (10 * n + d) cs)"

definition Atoi :: "string \<Rightarrow> int option" where
  "Atoi s =
     (case s of
        [] \<Rightarrow> None
      | c # cs \<Rightarrow>
          if c = CHR ''-'' then (if cs = [] then None else map_option (\<lambda>n. - int n) (digits 0 cs))
          else if c = CHR ''+'' then (if cs = [] then None else map_option int (digits 0 cs))
          else map_option int (digits 0 s))"

fun atoiAll :: "string list \<Rightarrow> string + rvalue list" where
  "atoiAll [] = Inr []"
| "atoiAll (d # ds) =
     (case Atoi d of
        None \<Rightarrow> Inl (''strconv.Atoi: parsing '' @ quote d @ '': invalid syntax'')
      | Some n \<Rightarrow>
          if n < - (2 ^ 63) \<or> 2 ^ 63 \<le> n
          then Inl (''strconv.Atoi: parsing '' @ quote d @ '': value out of range'')
          else (case atoiAll ds of Inl e \<Rightarrow> Inl e | Inr ns \<Rightarrow> Inr (VInt (word_of_int n) # ns)))"

definition intSliceSet :: "Flag \<Rightarrow> string \<Rightarrow> rvalue \<Rightarrow> string option \<times> rvalue" where
  "intSliceSet f text x =
     (case atoiAll (splitComma text) of
        Inl e \<Rightarrow> (Some (setError f text e), x)
      | Inr out \<Rightarrow>
          (None, if \<not> Changed f then VSlice out
                 else (case x of VSlice xs \<Rightarrow> VSlice (xs @ out) | _ \<Rightarrow> VSlice out)))"

definition testValues :: "unicodeLib \<Rightarrow> valueOps" where
  "testValues U =
     \<lparr> valueSet = (\<lambda>f text x.
          case Op f of
            StringVarP \<Rightarrow> (None, VString text)
          | IntSliceVarP \<Rightarrow> intSliceSet f text x
          | ValueVarP n \<Rightarrow>
              if n = ''LogLevel''
              then (map_option (setError f text) (fst (LogLevel_Set U (Some x) text)),
                    (case snd (LogLevel_Set U (Some x) text) of Some y \<Rightarrow> y | None \<Rightarrow> x))
              else (Some ''value type outside this instance'', x)
          | _ \<Rightarrow> (Some ''value type outside this instance'', x)),
       nilSet = (\<lambda>f text.
          case Op f of
            ValueVarP n \<Rightarrow>
              if n = ''LogLevel''
              then map_option (setError f text) (fst (LogLevel_Set U None text))
              else Some ''value type outside this instance''
          | _ \<Rightarrow> Some ''value type outside this instance'') \<rparr>"

fun testParse :: "unicodeLib \<Rightarrow> pFlagSet \<Rightarrow> string list \<Rightarrow> string option \<times> pFlagSet" where
  "testParse U fs [] = (None, fs)"
| "testParse U fs (a # rest) =
     (if take 2 a = ''--'' \<and> 2 < length a
      then
        (let name = takeWhile (\<lambda>c. c \<noteq> CHR ''='') (drop 2 a) in
         case lookupFlag fs name of
           None \<Rightarrow> (Some (''unknown flag: --'' @ name), fs)
         | Some f \<Rightarrow>
             if CHR ''='' \<in> set a
             then (case FlagSet_Set (testValues U) fs name (tl (dropWhile (\<lambda>c. c \<noteq> CHR ''='') a)) of
                     (Some err, fs') \<Rightarrow> (Some err, fs')
                   | (None, fs') \<Rightarrow> testParse U fs' rest)
             else (case rest of
                     [] \<Rightarrow> (Some (''flag needs an argument: '' @ a), fs)
                   | v # rest' \<Rightarrow>
                       (case FlagSet_Set (testValues U) fs name v of
                          (Some err, fs') \<Rightarrow> (Some err, fs')
                        | (None, fs') \<Rightarrow> testParse U fs' rest')))
      else (Some ''argument form outside this instance'', fs))"

definition testEngine :: "unicodeLib \<Rightarrow> engine" where
  "testEngine U = valueOps.extend (testValues U) (engine.fields (testParse U))"

section \<open>Vocabulary of the properties\<close>

text \<open>
  The notions the properties below are stated with. \<open>addable\<close> is the condition under
  which \<open>AddFlag\<close> accepts a flag; \<open>newFlag\<close> is the flag a registration made from a field
  context creates.
\<close>

definition addable :: "pFlagSet \<Rightarrow> string \<Rightarrow> string \<Rightarrow> bool" where
  "addable fs name short =
     (name \<notin> set (map Name (formal fs)) \<and>
      (short = [] \<or> (length short \<le> 1 \<and> short \<notin> set (map Shorthand (formal fs)))))"

definition newFlag :: "fieldcontext \<Rightarrow> regop \<Rightarrow> rvalue option \<Rightarrow> (addr \<times> rvalue) option \<Rightarrow> Flag" where
  "newFlag c op d b =
     \<lparr> Name = fieldname c, Shorthand = shorthand c, Usage = helpText c, Op = op, Default = d,
       Bound = b, Changed = False \<rparr>"

text \<open>
  The registrations the specification names for the leaf kinds and for the sequences of
  them, as tables from the field type (\<open>leafOp\<close>) and from the element type (\<open>sliceOp\<close>);
  \<open>unsupportedKind\<close> holds of the types that are neither in these tables nor a pointer nor
  a record.
\<close>

definition leafOp :: "rtype \<Rightarrow> regop option" where
  "leafOp rt =
     (case rt of
        Plain k i \<Rightarrow>
          if k = KBool then Some BoolVarP
          else if k = KFloat64 then Some Float64VarP
          else if k = KInt64 then (if rt = rTimeDurationType then Some DurationVarP else Some Int64VarP)
          else if k = KInt then Some IntVarP
          else if k = KString then Some StringVarP
          else if k = KUint64 then Some Uint64VarP
          else if k = KUint then Some UintVarP
          else None
      | _ \<Rightarrow> None)"

definition sliceOp :: "rtype \<Rightarrow> regop option" where
  "sliceOp et =
     (let k = Kind et in
      if k = KBool then Some BoolSliceVarP
      else if k = KFloat64 then Some Float64SliceVarP
      else if k = KInt64 then (if et = rTimeDurationType then Some DurationSliceVarP else Some Int64SliceVarP)
      else if k = KInt then Some IntSliceVarP
      else if k = KString then Some StringSliceVarP
      else if k = KUint then Some UintSliceVarP
      else None)"

definition unsupportedKind :: "rtype \<Rightarrow> bool" where
  "unsupportedKind rt =
     (case rt of
        Plain k i \<Rightarrow> k \<notin> {KBool, KFloat64, KInt64, KInt, KString, KUint64, KUint, KPtr, KSlice, KStruct}
      | SliceT i et \<Rightarrow> Kind et \<notin> {KBool, KFloat64, KInt64, KInt, KString, KUint}
      | _ \<Rightarrow> False)"


text \<open>The two \<^verbatim>\<open>continue\<close> conditions of \<^verbatim>\<open>Builder.walk\<close>.\<close>

definition skipsField :: "Builder \<Rightarrow> sfield \<Rightarrow> bool" where
  "skipsField b rf =
     (fst (lookupFlagname (FlagnameTags b) rf) = ''-''
      \<or> (\<not> snd (lookupFlagname (FlagnameTags b) rf) \<and> \<not> IsExported rf))"

text \<open>
  What the overlay of \<^verbatim>\<open>Parse\<close> is to do with one flag taken by itself: the variable it
  looks up, the flag after its step, and the error the step is to report, which is the
  error of \<^verbatim>\<open>Set\<close> behind the text \<^verbatim>\<open>on envvar NAME=value, \<close>.
\<close>

definition envNameOf :: "Builder \<Rightarrow> Flag \<Rightarrow> string" where
  "envNameOf b f = EnvNameFunc b (EnvPrefix b) (Name f)"

definition overlaid :: "'a valueOps_scheme \<Rightarrow> environ \<Rightarrow> Builder \<Rightarrow> Flag \<Rightarrow> Flag" where
  "overlaid E env b f =
     (if Getenv env (envNameOf b f) \<noteq> [] then snd (setFlag E f (Getenv env (envNameOf b f))) else f)"

definition overlayError :: "'a valueOps_scheme \<Rightarrow> environ \<Rightarrow> Builder \<Rightarrow> Flag \<Rightarrow> string option" where
  "overlayError E env b f =
     (if Getenv env (envNameOf b f) \<noteq> []
      then map_option
             (\<lambda>err. ''on envvar '' @ envNameOf b f @ ''='' @ Getenv env (envNameOf b f) @ '', '' @ err)
             (fst (setFlag E f (Getenv env (envNameOf b f))))
      else None)"

definition overlayErrors :: "'a valueOps_scheme \<Rightarrow> environ \<Rightarrow> Builder \<Rightarrow> Flag list \<Rightarrow> string list" where
  "overlayErrors E env b vs = List.map_filter (overlayError E env b) vs"

text \<open>The names registered by a \<^verbatim>\<open>Build\<close>, and the flags and the record left by a walk.\<close>

definition builtNames :: "panic + FlagSet \<times> rvalue \<Rightarrow> panic + string list" where
  "builtNames r = map_sum id (\<lambda>x. map Name (formal (flagSet (fst x)))) r"


section \<open>Example inputs\<close>

text \<open>
  Records, builders and environments in the style of \<^verbatim>\<open>structflag_test.go\<close>, on which the
  properties are run.
\<close>

definition noEnv :: environ where
  "noEnv = map_of []"

text \<open>
  The examples are ASCII text, on which the Unicode tables are never consulted; this value
  stands in for them.
\<close>

definition noUnicode :: unicodeLib where
  "noUnicode = \<lparr> MapToUpper = id, TrimFuncSpace = id, TrimRightFuncSpace = id \<rparr>"

definition exEngine :: engine where
  "exEngine = testEngine noUnicode"

definition stringType :: rtype where
  "stringType = Plain KString (TInfo ''string'' NoValue None)"

definition anonType :: tinfo where
  "anonType = TInfo [] NoValue None"

definition intSliceType :: rtype where
  "intSliceType = SliceT anonType (Plain KInt (TInfo ''int'' NoValue None))"

definition uint64SliceType :: rtype where
  "uint64SliceType = SliceT anonType (Plain KUint64 (TInfo ''uint64'' NoValue None))"

definition mapType :: rtype where
  "mapType = Plain KMap anonType"

definition testBuilder :: Builder where
  "testBuilder = (NewBuilder noUnicode ''structflag.test'' noEnv)
      \<lparr>HandlingMode := ContinueOnError, EnvvarSupport := False, BuilderName := ''-''\<rparr>"

definition exBuilder :: Builder where
  "exBuilder = (NewBuilder noUnicode ''app'' noEnv)\<lparr>HandlingMode := ContinueOnError\<rparr>"

definition emptyFlagSet :: pFlagSet where
  "emptyFlagSet = NewFlagSet ''-'' ContinueOnError"

definition exField :: "string \<Rightarrow> string \<Rightarrow> (string \<times> string) list \<Rightarrow> rtype \<Rightarrow> sfield" where
  "exField name pkg tag rt = StructField name pkg tag False rt"

definition exContext :: "string \<Rightarrow> string \<Rightarrow> bool \<Rightarrow> sfield \<Rightarrow> fieldcontext" where
  "exContext name short tagged rf =
     \<lparr> fieldname = name, helpText = ''-'', shorthand = short, prefix = [], hasFlagname = tagged,
       field = rf \<rparr>"

definition exValue :: "rvalue \<Rightarrow> nat \<Rightarrow> Value" where
  "exValue x i = \<lparr> val = x, ptr = [FieldAt i], stickyRO = False, embedRO = False \<rparr>"

definition twoTagField :: sfield where
  "twoTagField = exField ''Name'' [] [(''flag'', ''a''), (''json'', ''b'')] stringType"

definition numsField :: sfield where
  "numsField = exField ''Nums'' [] [(''flag'', ''nums''), (''short'', ''n'')] intSliceType"

definition nestedOptions :: rtype where
  "nestedOptions = StructT (TInfo ''Options'' NoValue None)
     [exField ''Outer'' [] [] (StructT anonType
        [exField ''Inner'' [] [] (StructT anonType
           [exField ''Leaf'' [] [] stringType])])]"

definition nestedRecord :: rvalue where
  "nestedRecord = VPtr (Some (VStruct [VStruct [VStruct [VString []]]]))"

definition uintsOptions :: rtype where
  "uintsOptions = StructT (TInfo ''Options'' NoValue None)
     [exField ''Nums'' [] [(''flag'', ''nums'')] uint64SliceType]"

definition uintsRecord :: rvalue where
  "uintsRecord = VPtr (Some (VStruct [VSlice [VUint 1, VUint 2]]))"

definition exOptions :: rtype where
  "exOptions = StructT (TInfo ''Options'' NoValue None)
     [StructField ''Name'' [] [(''flag'', ''name'')] False stringType,
      StructField ''LogLevel'' [] [(''flag'', ''log-level'')] False LogLevelType,
      StructField ''LogLevelPointer'' [] [(''flag'', ''log-level-pointer''), (''help'', ''level'')] False
        (PtrT LogLevelType)]"

definition exRecord :: rvalue where
  "exRecord = VPtr (Some (VStruct [VString ''foo'', VString ''WARN'', VPtr None]))"

definition exFlagSet :: FlagSet where
  "exFlagSet = fst (projr (Build exBuilder (PtrT exOptions) exRecord))"

definition exEnv :: environ where
  "exEnv = map_of [(''NAME'', ''env''), (''LOG_LEVEL'', ''foo'')]"

definition exEnv2 :: environ where
  "exEnv2 = map_of [(''NAME'', ''env''), (''LOG_LEVEL'', ''foo''), (''LOG_LEVEL_POINTER'', ''info'')]"

definition exAfterCli :: pFlagSet where
  "exAfterCli = snd (parseArgs exEngine (flagSet exFlagSet) [''--name'', ''cli''])"

definition nameContext :: fieldcontext where
  "nameContext = exContext ''name'' [] True (exField ''Name'' [] [(''flag'', ''name'')] stringType)"

definition otherContext :: fieldcontext where
  "otherContext = exContext ''other'' [] True (exField ''Other'' [] [(''flag'', ''other'')] stringType)"

definition twoFlagSet :: FlagSet where
  "twoFlagSet =
     \<lparr> flagSet = emptyFlagSet\<lparr>formal :=
         [newFlag nameContext StringVarP (Some (VString ''foo'')) (Some ([FieldAt 0], VString ''foo'')),
          newFlag otherContext StringVarP (Some (VString [])) (Some ([FieldAt 1], VString []))]\<rparr>,
       builder = exBuilder \<rparr>"

definition otherEnv :: environ where
  "otherEnv = map_of [(''OTHER'', ''y'')]"

definition twoAfterCli :: pFlagSet where
  "twoAfterCli = snd (parseArgs exEngine (flagSet twoFlagSet) [''--other'', ''x''])"



text \<open>A record type with a single field.\<close>

definition oneField :: "sfield \<Rightarrow> rtype" where
  "oneField rf = StructT (TInfo ''Options'' NoValue None) [rf]"

text \<open>\<^verbatim>\<open>struct { Nums []int `flag:"nums" short:"n"` }\<close>, empty, and \<^verbatim>\<open>NUMS=30\<close>.\<close>

definition numsOptions :: rtype where
  "numsOptions = oneField numsField"

definition numsRecord :: rvalue where
  "numsRecord = VPtr (Some (VStruct [VSlice []]))"

definition numsFlagSet :: FlagSet where
  "numsFlagSet = fst (projr (Build exBuilder (PtrT numsOptions) numsRecord))"

definition numsEnv :: environ where
  "numsEnv = map_of [(''NUMS'', ''30'')]"

definition numsAfterCli :: pFlagSet where
  "numsAfterCli = snd (parseArgs exEngine (flagSet numsFlagSet) [''--nums'', ''20''])"











section \<open>Properties\<close>

subsection \<open>The walker, case by case\<close>

declare walkFrom.simps [simp del] walkField.simps [simp del]

lemma walkField_custom:
  "implementsValue rt \<Longrightarrow> walkField b fs rt fv c = callVarP fs rt fv c"
  by (simp add: walkField.simps)

lemma walkField_Plain:
  "\<not> implementsValue (Plain k i) \<Longrightarrow> walkField b fs (Plain k i) fv c = bindLeaf fs (Plain k i) fv c"
  by (simp add: walkField.simps)

lemma walkField_SliceT:
  "\<not> implementsValue (SliceT i et) \<Longrightarrow> walkField b fs (SliceT i et) fv c = bindLeaf fs (SliceT i et) fv c"
  by (simp add: walkField.simps)

lemma walkField_StructT:
  "\<not> implementsValue (StructT i sfs) \<Longrightarrow> walkField b fs (StructT i sfs) fv c =
     walkFrom b fs sfs 0 fv (if sfAnonymous (field c) then prefix c else prefix c @ fieldname c @ ''.'')"
  by (simp add: walkField.simps)

lemma walkField_PtrT:
  "\<not> implementsValue (PtrT t) \<Longrightarrow> walkField b fs (PtrT t) fv c =
     (case ptrTarget t fv c of
             None \<Rightarrow> Inr (fs, fv)
           | Some (Inl p) \<Rightarrow> Inl p
           | Some (Inr x) \<Rightarrow>
               (case walkField b fs t (Elem fv x) c of
                  Inl p \<Rightarrow> Inl p
                | Inr r \<Rightarrow> Inr (fst r, fv\<lparr>val := VPtr (Some (val (snd r)))\<rparr>)))"
  by (simp add: walkField.simps)

lemma AddFlag_addable:
  "addable fs (Name f) (Shorthand f) \<Longrightarrow> AddFlag fs f = Inr (fs\<lparr>formal := formal fs @ [f]\<rparr>)"
  by (auto simp: addable_def AddFlag_def)

lemma AddFlag_Inr:
  "AddFlag fs f = Inr fs' \<Longrightarrow> fs' = fs\<lparr>formal := formal fs @ [f]\<rparr> \<and> addable fs (Name f) (Shorthand f)"
  by (auto simp: addable_def AddFlag_def split: if_splits)

lemma bindVar_ok:
  "addable fs (fieldname c) (shorthand c) \<Longrightarrow>
   bindVar fs op fv c (Inr x) =
     Inr (fs\<lparr>formal := formal fs @ [newFlag c op (Some x) (Some (ptr fv, x))]\<rparr>, fv\<lparr>val := x\<rparr>)"
  by (simp add: bindVar_def typedVarP_def VarP_def newFlag_def AddFlag_addable)

lemma bindLeaf_leaf:
  assumes "leafOp rt = Some op"
  shows "bindLeaf fs rt fv c = bindVar fs op fv c (readAs (Kind rt) (val fv))"
  using assms
  by (cases rt) (auto simp: leafOp_def bindLeaf_def split: if_splits)

lemma bindLeaf_slice:
  assumes "sliceOp et = Some op"
  shows "bindLeaf fs (SliceT i et) fv c = bindVar fs op fv c (readSlice (Kind et) fv)"
  using assms
  by (auto simp: sliceOp_def bindLeaf_def Let_def split: if_splits)

lemma readAs_same: "readAs k x = Inr y \<Longrightarrow> y = x"
  by (auto simp: readAs_def split: rvalue.splits if_splits)

lemma readAll_same: "readAll k xs = Inr ys \<Longrightarrow> ys = xs"
  by (induction xs arbitrary: ys) (auto split: sum.splits dest: readAs_same)

lemma readSlice_same: "readSlice k fv = Inr d \<Longrightarrow> d = val fv"
  by (auto simp: readSlice_def split: rvalue.splits sum.splits dest: readAll_same)

lemma bindLeaf_slice_unsupported:
  assumes "sliceOp et = None"
  shows "bindLeaf fs (SliceT i et) fv c = Inl (UnsupportedSliceType (SliceT i et))"
  using assms
  by (cases "Kind et") (auto simp: sliceOp_def bindLeaf_def Let_def split: if_splits)

lemma bindLeaf_plain_unsupported:
  assumes "leafOp (Plain k i) = None" "k \<noteq> KSlice"
  shows "bindLeaf fs (Plain k i) fv c = Inl (UnsupportedType (Plain k i))"
  using assms
  by (cases k) (auto simp: leafOp_def bindLeaf_def split: if_splits)

lemma walkField_leaf:
  assumes "leafOp rt = Some op" and "\<not> implementsValue rt"
    and "readAs (Kind rt) (val fv) = Inr d"
    and "addable fs (fieldname c) (shorthand c)"
  shows "walkField b fs rt fv c =
           Inr (fs\<lparr>formal := formal fs @ [newFlag c op (Some (val fv)) (Some (ptr fv, val fv))]\<rparr>, fv)"
proof -
  have d: "d = val fv" using assms(3) by (rule readAs_same)
  obtain k i where rt: "rt = Plain k i" using assms(1) by (cases rt) (simp_all add: leafOp_def)
  have "walkField b fs rt fv c = bindVar fs op fv c (Inr d)"
    using assms(1-3) by (simp add: rt walkField_Plain bindLeaf_leaf)
  then show ?thesis
    using assms(4) d by (simp add: bindVar_ok)
qed



lemma walkField_unsupported:
  assumes "unsupportedKind rt" "\<not> implementsValue rt"
  shows "walkField b fs rt fv c = Inl (if Kind rt = KSlice then UnsupportedSliceType rt else UnsupportedType rt)"
proof (cases rt)
  case (Plain k i)
  then have "leafOp (Plain k i) = None" "k \<noteq> KSlice"
    using assms(1) by (auto simp: unsupportedKind_def leafOp_def)
  then show ?thesis using assms(2) Plain
    by (simp add: walkField_Plain bindLeaf_plain_unsupported)
next
  case (SliceT i et)
  then have "sliceOp et = None" using assms(1) by (auto simp: unsupportedKind_def sliceOp_def Let_def)
  then show ?thesis using assms(2) SliceT
    by (simp add: walkField_SliceT bindLeaf_slice_unsupported)
qed (use assms in \<open>simp_all add: unsupportedKind_def\<close>)

lemma fieldcontextOf_None: "fieldcontextOf b rf fv pre = None \<longleftrightarrow> skipsField b rf"
  by (auto simp: fieldcontextOf_def skipsField_def Let_def split: sum.splits)

lemma fieldcontextOf_Some:
  assumes "fieldcontextOf b rf fv pre = Some (Inr c)"
  shows "hasFlagname c = snd (lookupFlagname (FlagnameTags b) rf)"
    "fieldname c = FlagNameFunc b (pre @ fst (lookupFlagname (FlagnameTags b) rf))"
  using assms
  by (auto simp: fieldcontextOf_def Let_def split: if_splits sum.splits)






lemma walkFrom_unsupported:
  assumes "rf \<in> set sfs" "\<not> skipsField b rf" "unsupportedKind (sfType rf)" "\<not> implementsValue (sfType rf)"
  shows "isl (walkFrom b fs sfs i rv pre)"
  using assms(1)
proof (induction sfs arbitrary: fs i rv)
  case Nil
  then show ?case by simp
next
  case (Cons a sfs)
  show ?case
  proof (cases "Field a rv i")
    case (Inl p)
    then show ?thesis by (simp add: walkFrom.simps)
  next
    case (Inr fv)
    show ?thesis
    proof (cases "fieldcontextOf b a fv pre")
      case None
      then have "skipsField b a" by (simp add: fieldcontextOf_None)
      then have "a \<noteq> rf" using assms(2) by auto
      then have "rf \<in> set sfs" using Cons.prems by simp
      then show ?thesis using Inr None Cons.IH by (simp add: walkFrom.simps)
    next
      case (Some r)
      show ?thesis
      proof (cases r)
        case (Inl p)
        then show ?thesis using Inr Some by (simp add: walkFrom.simps)
      next
        case c: (Inr c)
        show ?thesis
        proof (cases "a = rf")
          case True
          then show ?thesis using Inr Some c assms(3,4)
            by (simp add: walkFrom.simps walkField_unsupported)
        next
          case False
          then have "rf \<in> set sfs" using Cons.prems by simp
          then show ?thesis using Inr Some c Cons.IH
            by (simp add: walkFrom.simps split: sum.splits)
        qed
      qed
    qed
  qed
qed

subsection \<open>The flag table stays keyed by name\<close>

text \<open>
  Every registration goes through \<open>AddFlag\<close>, which refuses a name that is taken, so the
  flags of a flag set that \<^verbatim>\<open>Build\<close> returns have pairwise different names. The properties
  of \<^verbatim>\<open>Parse\<close> below ask the same of the flags the engine's parse hands back.
\<close>

lemma AddFlag_distinct:
  assumes "AddFlag fs f = Inr fs'" "distinct (map Name (formal fs))"
  shows "distinct (map Name (formal fs'))"
  using assms AddFlag_Inr [OF assms(1)] by (auto simp: addable_def)

lemma bindVar_distinct:
  assumes "bindVar fs op fv c d = Inr r" "distinct (map Name (formal fs))"
  shows "distinct (map Name (formal (fst r)))"
  using assms
  by (auto simp: bindVar_def typedVarP_def VarP_def split: sum.splits dest: AddFlag_distinct)

lemma bindLeaf_cases:
  "(\<exists>p. bindLeaf fs rt fv c = Inl p) \<or> (\<exists>op d. bindLeaf fs rt fv c = bindVar fs op fv c d)"
proof -
  have ex: "\<exists>op d. bindVar fs op0 fv c d0 = bindVar fs op fv c d" for op0 d0 by blast
  show ?thesis
  proof (cases rt)
    case (Plain k i)
    then show ?thesis by (cases k) (simp_all add: bindLeaf_def ex)
  next
    case (PtrT t)
    then show ?thesis by (simp add: bindLeaf_def)
  next
    case (SliceT i et)
    then show ?thesis by (cases "Kind et") (simp_all add: bindLeaf_def ex)
  next
    case (StructT i sfs)
    then show ?thesis by (simp add: bindLeaf_def)
  qed
qed

lemma bindLeaf_distinct:
  assumes "bindLeaf fs rt fv c = Inr r" "distinct (map Name (formal fs))"
  shows "distinct (map Name (formal (fst r)))"
proof -
  from bindLeaf_cases [of fs rt fv c] assms(1)
  obtain op d where "bindVar fs op fv c d = Inr r" by auto
  then show ?thesis using assms(2) by (rule bindVar_distinct)
qed

lemma callVarP_distinct:
  assumes "callVarP fs rt fv c = Inr r" "distinct (map Name (formal fs))"
  shows "distinct (map Name (formal (fst r)))"
  using assms
  by (auto simp: callVarP_def VarP_def split: if_splits sum.splits dest: AddFlag_distinct)

lemma walk_distinct:
  "walkFrom b fs sfs i rv pre = Inr r \<Longrightarrow> distinct (map Name (formal fs))
     \<Longrightarrow> distinct (map Name (formal (fst r)))"
  "walkField b fs rt fv c = Inr r' \<Longrightarrow> distinct (map Name (formal fs))
     \<Longrightarrow> distinct (map Name (formal (fst r')))"
proof (induction b fs sfs i rv pre and b fs rt fv c arbitrary: r and r' rule: walkFrom_walkField.induct)
  case (1 b fs i rv pre)
  then show ?case by (auto simp: walkFrom.simps)
next
  case (2 b fs rf rest i rv pre)
  show ?case
  proof (cases "Field rf rv i")
    case (Inl p)
    then show ?thesis using "2.prems" by (simp add: walkFrom.simps)
  next
    case fv: (Inr fv)
    show ?thesis
    proof (cases "fieldcontextOf b rf fv pre")
      case None
      then show ?thesis using fv "2.prems" "2.IH"(1) by (simp add: walkFrom.simps)
    next
      case (Some x)
      show ?thesis
      proof (cases x)
        case (Inl p)
        then show ?thesis using fv Some "2.prems" by (simp add: walkFrom.simps)
      next
        case c: (Inr c)
        show ?thesis
        proof (cases "walkField b fs (sfType rf) fv c")
          case (Inl p)
          then show ?thesis using fv Some c "2.prems" by (simp add: walkFrom.simps)
        next
          case w: (Inr w)
          have d: "distinct (map Name (formal (fst w)))"
            using "2.IH"(2) [OF fv Some c w "2.prems"(2)] .
          have "walkFrom b (fst w) rest (Suc i) (SetField rv i (val (snd w))) pre = Inr r"
            using fv Some c w "2.prems"(1) by (simp add: walkFrom.simps)
          from "2.IH"(3) [OF fv Some c w this d] show ?thesis .
        qed
      qed
    qed
  qed
next
  case (3 b fs rt fv c)
  show ?case
  proof (cases "implementsValue rt")
    case True
    then show ?thesis using "3.prems" by (auto simp: walkField_custom dest: callVarP_distinct)
  next
    case nv: False
    show ?thesis
    proof (cases rt)
      case (Plain k i)
      then show ?thesis using nv "3.prems" by (auto simp: walkField_Plain dest: bindLeaf_distinct)
    next
      case (PtrT t)
      show ?thesis
      proof (cases "ptrTarget t fv c")
        case None
        then show ?thesis using nv PtrT "3.prems" by (auto simp: walkField_PtrT)
      next
        case (Some x)
        show ?thesis
        proof (cases x)
          case (Inl p)
          then show ?thesis using nv PtrT Some "3.prems" by (simp add: walkField_PtrT)
        next
          case y: (Inr y)
          show ?thesis
          proof (cases "walkField b fs t (Elem fv y) c")
            case (Inl p)
            then show ?thesis using nv PtrT Some y "3.prems" by (simp add: walkField_PtrT)
          next
            case w: (Inr w)
            have "distinct (map Name (formal (fst w)))"
              using "3.IH"(1) [OF nv PtrT Some y w "3.prems"(2)] .
            then show ?thesis using nv PtrT Some y w "3.prems" by (auto simp: walkField_PtrT)
          qed
        qed
      qed
    next
      case (SliceT i et)
      then show ?thesis using nv "3.prems" by (auto simp: walkField_SliceT dest: bindLeaf_distinct)
    next
      case (StructT i sfs)
      show ?thesis
      proof (cases "sfAnonymous (field c)")
        case True
        then show ?thesis using nv StructT "3.prems" "3.IH"(2) [OF nv StructT True]
          by (simp add: walkField_StructT)
      next
        case False
        then show ?thesis using nv StructT "3.prems" "3.IH"(3) [OF nv StructT False]
          by (simp add: walkField_StructT)
      qed
    qed
  qed
qed

lemma Build_distinct:
  assumes "Build b rt ov = Inr r"
  shows "distinct (map Name (formal (flagSet (fst r))))"
proof -
  have e: "distinct (map Name (formal (NewFlagSet n m)))" for n m by (simp add: NewFlagSet_def)
  show ?thesis
    using assms walk_distinct(1) [OF _ e]
    by (auto simp: Build_def walk_def Let_def split: rtype.splits sum.splits)
qed

subsection \<open>The environment overlay, flag by flag\<close>

lemma Name_setFlag [simp]: "Name (snd (setFlag E f v)) = Name f"
  by (simp add: setFlag_def split: option.splits prod.splits)

lemma Name_overlaid [simp]: "Name (overlaid E env b f) = Name f"
  by (simp add: overlaid_def)

lemma lookupFlag_mem:
  assumes "distinct (map Name (formal p))" "f \<in> set (formal p)"
  shows "lookupFlag p (Name f) = Some f"
proof -
  have "find (\<lambda>g. Name g = Name f) xs = Some f" if "distinct (map Name xs)" "f \<in> set xs" for xs
    using that by (induction xs) (auto simp: image_iff)
  with assms show ?thesis by (simp add: lookupFlag_def)
qed

lemma lookupFlag_Name: "lookupFlag p n = Some f \<Longrightarrow> Name f = n \<and> f \<in> set (formal p)"
  by (auto simp: lookupFlag_def find_Some_iff)

lemma same_name_same_flag:
  assumes "distinct (map Name xs)" "f \<in> set xs" "g \<in> set xs" "Name g = Name f"
  shows "g = f"
  using assms by (auto simp: distinct_map dest: inj_onD)

lemma map_upd_name:
  assumes "distinct (map Name xs)" "f \<in> set xs"
  shows "map (\<lambda>g. if Name g = Name f then h f else g) xs = map (\<lambda>g. if Name g = Name f then h g else g) xs"
proof (rule map_cong [OF refl])
  fix g assume "g \<in> set xs"
  with assms show "(if Name g = Name f then h f else g) = (if Name g = Name f then h g else g)"
    by (auto dest: same_name_same_flag)
qed

lemma map_keeps_names:
  assumes "\<And>g. Name (h g) = Name g"
  shows "map Name (map (\<lambda>g. if P g then h g else g) xs) = map Name xs"
  by (induction xs) (simp_all add: assms)

lemma overlay_unfold:
  "overlay E env b (e, p) f =
     (if Getenv env (envNameOf b f) \<noteq> []
      then (case FlagSet_Set E p (Name f) (Getenv env (envNameOf b f)) of
              (Some err, fs') \<Rightarrow> (Some (envError (envNameOf b f) (Getenv env (envNameOf b f)) err), fs')
            | (None, fs') \<Rightarrow> (e, fs'))
      else (e, p))"
  by (simp add: overlay_def Let_def envNameOf_def split: prod.splits option.splits)

lemma overlayError_envError:
  "overlayError E env b f =
     (if Getenv env (envNameOf b f) \<noteq> []
      then map_option (envError (envNameOf b f) (Getenv env (envNameOf b f)))
             (fst (setFlag E f (Getenv env (envNameOf b f))))
      else None)"
proof -
  have "envError n v = (\<lambda>err. ''on envvar '' @ n @ ''='' @ v @ '', '' @ err)" for n v
    by (rule ext) (simp add: envError_def)
  then show ?thesis by (simp add: overlayError_def)
qed

lemma overlaid_same_name:
  "Name g = Name f \<Longrightarrow> overlaid E env b g =
     (if Getenv env (envNameOf b f) \<noteq> [] then snd (setFlag E g (Getenv env (envNameOf b f))) else g)"
  by (simp add: overlaid_def envNameOf_def)

lemma overlay_step:
  assumes "distinct (map Name (formal p))" "f \<in> set (formal p)"
  shows "overlay E env b (e, p) f =
     ((case overlayError E env b f of None \<Rightarrow> e | Some x \<Rightarrow> Some x),
      p\<lparr>formal := map (\<lambda>g. if Name g = Name f then overlaid E env b g else g) (formal p)\<rparr>)"
proof (cases "Getenv env (envNameOf b f) = []")
  case True
  have "map (\<lambda>g. if Name g = Name f then overlaid E env b g else g) (formal p) = map (\<lambda>g. g) (formal p)"
  proof (rule map_cong [OF refl])
    fix g assume "g \<in> set (formal p)"
    show "(if Name g = Name f then overlaid E env b g else g) = g"
      using True by (simp add: overlaid_same_name)
  qed
  then have "p\<lparr>formal := map (\<lambda>g. if Name g = Name f then overlaid E env b g else g) (formal p)\<rparr> = p"
    by simp
  with True show ?thesis
    by (simp add: overlay_unfold overlayError_envError)
next
  case False
  define v where "v = Getenv env (envNameOf b f)"
  have fm: "map (\<lambda>g. if Name g = Name f then snd (setFlag E f v) else g) (formal p)
        = map (\<lambda>g. if Name g = Name f then overlaid E env b g else g) (formal p)"
  proof (rule map_cong [OF refl])
    fix g assume g: "g \<in> set (formal p)"
    show "(if Name g = Name f then snd (setFlag E f v) else g) = (if Name g = Name f then overlaid E env b g else g)"
    proof (cases "Name g = Name f")
      case True
      then have "g = f" using assms g by (auto dest: same_name_same_flag)
      then show ?thesis using False by (simp add: overlaid_def v_def)
    next
      case False
      then show ?thesis by simp
    qed
  qed
  have fs: "FlagSet_Set E p (Name f) v =
      (fst (setFlag E f v),
       p\<lparr>formal := map (\<lambda>g. if Name g = Name f then overlaid E env b g else g) (formal p)\<rparr>)"
    by (simp add: FlagSet_Set_def lookupFlag_mem [OF assms] fm)
  have ov: "overlay E env b (e, p) f =
      (case FlagSet_Set E p (Name f) v of
              (Some err, fs') \<Rightarrow> (Some (envError (envNameOf b f) v err), fs')
            | (None, fs') \<Rightarrow> (e, fs'))"
    using False by (simp add: overlay_unfold v_def split: prod.splits option.splits)
  have oe: "overlayError E env b f = map_option (envError (envNameOf b f) v) (fst (setFlag E f v))"
    using False by (simp add: overlayError_envError v_def)
  show ?thesis
    unfolding ov fs oe by (cases "fst (setFlag E f v)") simp_all
qed

lemma overlay_fold:
  assumes "distinct (map Name (formal p))" "set vs \<subseteq> set (formal p)" "distinct (map Name vs)"
  shows "foldl (overlay E env b) (e, p) vs =
     ((if overlayErrors E env b vs = [] then e else Some (last (overlayErrors E env b vs))),
      p\<lparr>formal := map (\<lambda>g. if Name g \<in> Name ` set vs then overlaid E env b g else g) (formal p)\<rparr>)"
  using assms
proof (induction vs arbitrary: e p)
  case Nil
  then show ?case by (simp add: overlayErrors_def List.map_filter_simps)
next
  case (Cons f vs)
  let ?p' = "p\<lparr>formal := map (\<lambda>g. if Name g = Name f then overlaid E env b g else g) (formal p)\<rparr>"
  let ?e' = "case overlayError E env b f of None \<Rightarrow> e | Some x \<Rightarrow> Some x"
  have f_in: "f \<in> set (formal p)" using Cons.prems by simp
  have step: "overlay E env b (e, p) f = (?e', ?p')"
    using overlay_step [OF Cons.prems(1) f_in] .
  have names: "map Name (formal ?p') = map Name (formal p)"
    using map_keeps_names [of "overlaid E env b" "\<lambda>g. Name g = Name f" "formal p"] by simp
  have d': "distinct (map Name (formal ?p'))" by (simp only: names Cons.prems(1))
  have nf: "Name f \<notin> Name ` set vs" using Cons.prems(3) by simp
  have sub': "set vs \<subseteq> set (formal ?p')"
  proof
    fix r assume r: "r \<in> set vs"
    then have a: "r \<in> set (formal p)" using Cons.prems(2) by auto
    have b: "Name r \<noteq> Name f" using r nf by (metis imageI)
    have "r = (\<lambda>g. if Name g = Name f then overlaid E env b g else g) r" using b by simp
    then have "r \<in> (\<lambda>g. if Name g = Name f then overlaid E env b g else g) ` set (formal p)"
      using a by (rule image_eqI)
    then show "r \<in> set (formal ?p')" by simp
  qed
  have dv: "distinct (map Name vs)" using Cons.prems(3) by simp
  have pointwise: "(if Name (if Name g = Name f then overlaid E env b g else g) \<in> Name ` set vs
           then overlaid E env b (if Name g = Name f then overlaid E env b g else g)
           else (if Name g = Name f then overlaid E env b g else g))
        = (if Name g \<in> Name ` set (f # vs) then overlaid E env b g else g)" for g
  proof (cases "Name g = Name f")
    case True
    then show ?thesis using nf by simp
  next
    case False
    then show ?thesis by simp
  qed
  have comp: "map (\<lambda>g. if Name g \<in> Name ` set vs then overlaid E env b g else g) (formal ?p')
      = map (\<lambda>g. if Name g \<in> Name ` set (f # vs) then overlaid E env b g else g) (formal p)"
  proof -
    have "formal ?p' = map (\<lambda>g. if Name g = Name f then overlaid E env b g else g) (formal p)"
      by simp
    then show ?thesis by (simp only: map_map comp_def pointwise)
  qed
  have errs: "(if overlayErrors E env b vs = [] then ?e' else Some (last (overlayErrors E env b vs)))
      = (if overlayErrors E env b (f # vs) = [] then e else Some (last (overlayErrors E env b (f # vs))))"
    by (cases "overlayError E env b f") (simp_all add: overlayErrors_def List.map_filter_simps)
  have "foldl (overlay E env b) (e, p) (f # vs) = foldl (overlay E env b) (?e', ?p') vs"
    using step by simp
  also have "\<dots> = ((if overlayErrors E env b vs = [] then ?e' else Some (last (overlayErrors E env b vs))),
      ?p'\<lparr>formal := map (\<lambda>g. if Name g \<in> Name ` set vs then overlaid E env b g else g) (formal ?p')\<rparr>)"
    by (rule Cons.IH [OF d' sub' dv])
  also have "\<dots> = ((if overlayErrors E env b (f # vs) = [] then e else Some (last (overlayErrors E env b (f # vs)))),
      p\<lparr>formal := map (\<lambda>g. if Name g \<in> Name ` set (f # vs) then overlaid E env b g else g) (formal p)\<rparr>)"
    unfolding errs comp by simp
  finally show ?case .
qed

lemma map_filter_concat:
  "List.map_filter h xs = concat (map (\<lambda>x. case h x of None \<Rightarrow> [] | Some y \<Rightarrow> [y]) xs)"
  by (induction xs) (simp_all add: List.map_filter_simps split: option.splits)

lemma valueSet_string:
  "Op f = StringVarP \<Longrightarrow> valueSet (testEngine U) f text y = (None, VString text)"
  by (simp add: testEngine_def testValues_def valueOps.defs)

lemma VisitAll_set: "set (VisitAll p) = set (formal p)"
  by (simp add: VisitAll_def)

lemma VisitAll_distinct: "distinct (map Name (formal p)) \<Longrightarrow> distinct (map Name (VisitAll p))"
  by (simp add: VisitAll_def distinct_map)

lemma Parse_ok:
  assumes "parseArgs E (flagSet fs) args = (None, p1)" "EnvvarSupport (builder fs)"
    "distinct (map Name (formal p1))"
  shows "Parse E env fs args =
     ((if overlayErrors E env (builder fs) (VisitAll p1) = [] then None
       else Some (last (overlayErrors E env (builder fs) (VisitAll p1)))),
      fs\<lparr>flagSet := p1\<lparr>formal := map (overlaid E env (builder fs)) (formal p1)\<rparr>\<rparr>)"
proof -
  have "map (\<lambda>g. if Name g \<in> Name ` set (VisitAll p1) then overlaid E env (builder fs) g else g) (formal p1)
      = map (overlaid E env (builder fs)) (formal p1)"
    by (auto simp: VisitAll_set)
  then show ?thesis
    using assms overlay_fold [of p1 "VisitAll p1" E env "builder fs" None]
    by (simp add: Parse_def VisitAll_set VisitAll_distinct)
qed

lemma exFlagSet_formal:
  "map Name (formal (flagSet exFlagSet)) = [''name'', ''log-level'', ''log-level-pointer'']
   \<and> map Bound (formal (flagSet exFlagSet)) =
         [Some ([FieldAt 0], VString ''foo''), Some ([FieldAt 1], VString ''WARN''), None]"
  by code_simp

subsection \<open>C1: environment values and the command line\<close>

text \<open>
  C1 as the specification words it fails for a sequence flag. \<^verbatim>\<open>Parse\<close> hands the text of
  the variable to \<^verbatim>\<open>Set\<close> of the flag, and \<^verbatim>\<open>Set\<close> of a sequence that was set before
  appends: after \<^verbatim>\<open>--nums 20\<close> with \<^verbatim>\<open>NUMS=30\<close> the field holds 20, 30, so the value of the
  command line is still there.
\<close>

theorem C1_sequence_appended:
  "fst (Parse exEngine numsEnv numsFlagSet [''--nums'', ''20'']) = None
   \<and> map_option stored (lookupFlag numsAfterCli ''nums'') = Some (Some (VSlice [VInt 20]))
   \<and> Getenv numsEnv (EnvNameFunc (builder numsFlagSet) (EnvPrefix (builder numsFlagSet)) ''nums'') = ''30''
   \<and> map_option stored
        (lookupFlag (flagSet (snd (Parse exEngine numsEnv numsFlagSet [''--nums'', ''20'']))) ''nums'')
       = Some (Some (VSlice [VInt 20, VInt 30]))
   \<and> map_option stored
        (lookupFlag (flagSet (snd (Parse exEngine numsEnv numsFlagSet [''--nums'', ''20'']))) ''nums'')
       \<noteq> Some (Some (VSlice [VInt 30]))"
  by code_simp

text \<open>
  C1, as the code has it. Let the command-line parse succeed and leave the flags \<open>p1\<close>, with
  environment support enabled. Then every registered flag \<open>f\<close> whose derived variable holds
  a non-empty text ends as \<^verbatim>\<open>Set\<close> of that text leaves it, applied to the flag as the
  command line left it (the environment is written last): its storage holds what \<^verbatim>\<open>Set\<close>
  makes of the content the command line left, and where \<^verbatim>\<open>Set\<close> of that text gives the
  same content \<open>w\<close> whatever was stored before (a flag with a single value), it holds \<open>w\<close>,
  so the value of the command line is gone. A flag whose variable is unset or empty ends
  exactly as the command line left it. The flag table is keyed by name.
\<close>

theorem C1_env_applied_last:
  assumes "parseArgs E (flagSet fs) args = (None, p1)"
    and "EnvvarSupport (builder fs)"
    and "distinct (map Name (formal p1))"
    and "f \<in> set (formal p1)"
  shows "lookupFlag (flagSet (snd (Parse E env fs args))) (Name f) =
           Some (if Getenv env (EnvNameFunc (builder fs) (EnvPrefix (builder fs)) (Name f)) \<noteq> []
                 then snd (setFlag E f (Getenv env (EnvNameFunc (builder fs) (EnvPrefix (builder fs)) (Name f))))
                 else f)
       \<and> (\<forall>a x. Getenv env (EnvNameFunc (builder fs) (EnvPrefix (builder fs)) (Name f)) \<noteq> []
                 \<and> Bound f = Some (a, x) \<longrightarrow>
             map_option Bound (lookupFlag (flagSet (snd (Parse E env fs args))) (Name f)) =
               Some (Some (a, snd (valueSet E f
                  (Getenv env (EnvNameFunc (builder fs) (EnvPrefix (builder fs)) (Name f))) x))))
       \<and> (\<forall>a x w. Getenv env (EnvNameFunc (builder fs) (EnvPrefix (builder fs)) (Name f)) \<noteq> []
                 \<and> Bound f = Some (a, x)
                 \<and> (\<forall>y. snd (valueSet E f
                       (Getenv env (EnvNameFunc (builder fs) (EnvPrefix (builder fs)) (Name f))) y) = w) \<longrightarrow>
             map_option stored (lookupFlag (flagSet (snd (Parse E env fs args))) (Name f)) = Some (Some w))"
proof -
  let ?p = "flagSet (snd (Parse E env fs args))"
  let ?v = "Getenv env (EnvNameFunc (builder fs) (EnvPrefix (builder fs)) (Name f))"
  have fm: "formal ?p = map (overlaid E env (builder fs)) (formal p1)"
    using Parse_ok [OF assms(1-3)] by simp
  have d: "distinct (map Name (formal ?p))"
    using assms(3) by (simp add: fm comp_def)
  have m: "overlaid E env (builder fs) f \<in> set (formal ?p)"
    using assms(4) by (simp add: fm)
  from lookupFlag_mem [OF d m]
  have l: "lookupFlag ?p (Name f) = Some (if ?v \<noteq> [] then snd (setFlag E f ?v) else f)"
    by (simp add: overlaid_def envNameOf_def split: if_splits)
  have b: "Bound (snd (setFlag E f ?v)) = Some (a, snd (valueSet E f ?v x))"
    if "Bound f = Some (a, x)" for a x
    using that by (simp add: setFlag_def split: option.splits prod.splits)
  show ?thesis
    unfolding l by (auto simp: b stored_def)
qed

text \<open>
  C1 on the record of \<open>exOptions\<close>: \<^verbatim>\<open>--name cli\<close> with \<^verbatim>\<open>NAME=env\<close> ends with \<^verbatim>\<open>env\<close>, and
  the flag without a variable keeps what the command line left. On the record of
  \<open>numsOptions\<close>: \<^verbatim>\<open>--nums 20\<close> with \<^verbatim>\<open>NUMS=30\<close> ends with what \<^verbatim>\<open>Set\<close> makes of 20, which
  is 20, 30.
\<close>

theorem C1_env_applied_last_witness:
  "stored (the (lookupFlag exAfterCli ''name'')) = Some (VString ''cli'')
   \<and> Getenv exEnv (EnvNameFunc (builder exFlagSet) (EnvPrefix (builder exFlagSet)) ''name'') = ''env''
   \<and> map_option stored (lookupFlag (flagSet (snd (Parse exEngine exEnv exFlagSet [''--name'', ''cli'']))) ''name'')
       = Some (Some (VString ''env''))
   \<and> Getenv exEnv (EnvNameFunc (builder exFlagSet) (EnvPrefix (builder exFlagSet)) ''log-level-pointer'') = []
   \<and> lookupFlag (flagSet (snd (Parse exEngine exEnv exFlagSet [''--name'', ''cli'']))) ''log-level-pointer''
       = lookupFlag exAfterCli ''log-level-pointer''
   \<and> Bound (the (lookupFlag numsAfterCli ''nums'')) = Some ([FieldAt 0], VSlice [VInt 20])
   \<and> Getenv numsEnv (EnvNameFunc (builder numsFlagSet) (EnvPrefix (builder numsFlagSet)) ''nums'') = ''30''
   \<and> map_option Bound (lookupFlag (flagSet (snd (Parse exEngine numsEnv numsFlagSet [''--nums'', ''20'']))) ''nums'')
       = Some (Some ([FieldAt 0], VSlice [VInt 20, VInt 30]))"
proof -
  let ?n = "the (lookupFlag exAfterCli ''name'')"
  let ?q = "the (lookupFlag exAfterCli ''log-level-pointer'')"
  let ?s = "the (lookupFlag numsAfterCli ''nums'')"
  have h1: "parseArgs exEngine (flagSet exFlagSet) [''--name'', ''cli''] = (None, exAfterCli)"
  proof (rule prod_eqI)
    show "fst (parseArgs exEngine (flagSet exFlagSet) [''--name'', ''cli'']) = fst (None, exAfterCli)"
      by code_simp
  qed (simp add: exAfterCli_def)
  have h2: "EnvvarSupport (builder exFlagSet)" by code_simp
  have h3: "distinct (map Name (formal exAfterCli))" by code_simp
  have h4: "?n \<in> set (formal exAfterCli)" by code_simp
  have h5: "?q \<in> set (formal exAfterCli)" by code_simp
  have n1: "Name ?n = ''name''" by code_simp
  have n2: "Name ?q = ''log-level-pointer''" by code_simp
  have e1: "Getenv exEnv (EnvNameFunc (builder exFlagSet) (EnvPrefix (builder exFlagSet)) ''name'') = ''env''"
    by code_simp
  have e2: "Getenv exEnv (EnvNameFunc (builder exFlagSet) (EnvPrefix (builder exFlagSet)) ''log-level-pointer'') = []"
    by code_simp
  have s1: "Bound ?n = Some ([FieldAt 0], VString ''cli'')" by code_simp
  have o1: "Op ?n = StringVarP" by code_simp
  have r1: "\<forall>y. snd (valueSet exEngine ?n ''env'' y) = VString ''env''"
    using o1 by (simp add: exEngine_def valueSet_string)
  have s3: "lookupFlag exAfterCli ''log-level-pointer'' = Some ?q" by code_simp
  have g1: "parseArgs exEngine (flagSet numsFlagSet) [''--nums'', ''20''] = (None, numsAfterCli)"
  proof (rule prod_eqI)
    show "fst (parseArgs exEngine (flagSet numsFlagSet) [''--nums'', ''20'']) = fst (None, numsAfterCli)"
      by code_simp
  qed (simp add: numsAfterCli_def)
  have g2: "EnvvarSupport (builder numsFlagSet)" by code_simp
  have g3: "distinct (map Name (formal numsAfterCli))" by code_simp
  have g4: "?s \<in> set (formal numsAfterCli)" by code_simp
  have n3: "Name ?s = ''nums''" by code_simp
  have e3: "Getenv numsEnv (EnvNameFunc (builder numsFlagSet) (EnvPrefix (builder numsFlagSet)) ''nums'') = ''30''"
    by code_simp
  have s4: "Bound ?s = Some ([FieldAt 0], VSlice [VInt 20])" by code_simp
  have s5: "snd (valueSet exEngine ?s ''30'' (VSlice [VInt 20])) = VSlice [VInt 20, VInt 30]" by code_simp
  note a = C1_env_applied_last [OF h1 h2 h3 h4, of exEnv, unfolded n1 e1]
  note b = C1_env_applied_last [OF h1 h2 h3 h5, of exEnv, unfolded n2 e2]
  note c = C1_env_applied_last [OF g1 g2 g3 g4, of numsEnv, unfolded n3 e3]
  from a s1 r1 have A: "map_option stored
      (lookupFlag (flagSet (snd (Parse exEngine exEnv exFlagSet [''--name'', ''cli'']))) ''name'')
       = Some (Some (VString ''env''))"
    by blast
  from b s3 have B: "lookupFlag (flagSet (snd (Parse exEngine exEnv exFlagSet [''--name'', ''cli'']))) ''log-level-pointer''
       = lookupFlag exAfterCli ''log-level-pointer''"
    by simp
  from c s4 have "map_option Bound
      (lookupFlag (flagSet (snd (Parse exEngine numsEnv numsFlagSet [''--nums'', ''20'']))) ''nums'')
       = Some (Some ([FieldAt 0], snd (valueSet exEngine ?s ''30'' (VSlice [VInt 20]))))"
    by blast
  then have C: "map_option Bound
      (lookupFlag (flagSet (snd (Parse exEngine numsEnv numsFlagSet [''--nums'', ''20'']))) ''nums'')
       = Some (Some ([FieldAt 0], VSlice [VInt 20, VInt 30]))"
    by (simp only: s5)
  from A B C s1 s4 e1 e2 e3 show ?thesis by (simp add: stored_def)
qed

subsection \<open>C2: precedence among the configured flag-name tags\<close>

lemma foldl_tagStep_rev:
  "foldl (tagStep rf) acc (rev tags) =
     (case filter (\<lambda>t. Lookup rf t \<noteq> None) tags of
        [] \<Rightarrow> acc
      | t # _ \<Rightarrow> (the (Lookup rf t), True))"
  by (induction tags arbitrary: acc) (auto simp: tagStep_def split: list.splits option.splits)



text \<open>
  C2, as the code has it: the tags are consulted from the last configured one down to the
  first and each one found overwrites the name, so the name is the value of the tag that
  comes first in the configured list among those the field carries; with no such tag the
  raw field name stays and the field counts as not annotated.
\<close>

theorem C2_first_configured_tag_wins:
  "lookupFlagname tags rf =
     (case filter (\<lambda>t. Lookup rf t \<noteq> None) tags of
        [] \<Rightarrow> (sfName rf, False)
      | t # _ \<Rightarrow> (the (Lookup rf t), True))"
  unfolding lookupFlagname_def by (rule foldl_tagStep_rev)

text \<open>
  C2 as the specification words it fails: a field tagged \<^verbatim>\<open>flag:"a" json:"b"\<close> under the
  tag list \<^verbatim>\<open>["flag", "json"]\<close> carries both tags, \<^verbatim>\<open>json\<close> is the later entry, and the
  name is \<^verbatim>\<open>a\<close>, not \<^verbatim>\<open>b\<close>.
\<close>

theorem C2_later_tag_does_not_win:
  "Lookup twoTagField ''flag'' = Some ''a''
   \<and> Lookup twoTagField ''json'' = Some ''b''
   \<and> fst (lookupFlagname [''flag'', ''json''] twoTagField) = ''a''
   \<and> fst (lookupFlagname [''flag'', ''json''] twoTagField) \<noteq> ''b''"
  by code_simp

subsection \<open>C3: the prefix of nested records\<close>

text \<open>
  C3 fails at the second level of nesting. \<^verbatim>\<open>walk\<close> stores the name with the prefix already
  in front (\<^verbatim>\<open>fieldname = b.FlagNameFunc(prefix + fieldname)\<close>) and \<^verbatim>\<open>walkField\<close> builds the
  next prefix as \<^verbatim>\<open>c.prefix + c.fieldname + "."\<close>, so the outer prefix enters twice: the leaf
  of \<^verbatim>\<open>struct{ Outer struct{ Inner struct{ Leaf string } } }\<close> is registered as
  \<^verbatim>\<open>Outer.Outer.Inner.Leaf\<close>, where the claim says \<^verbatim>\<open>Outer.Inner.Leaf\<close>.
\<close>

theorem C3_nested_prefix_repeated:
  "builtNames (Build testBuilder (PtrT nestedOptions) nestedRecord) = Inr [''Outer.Outer.Inner.Leaf'']
   \<and> builtNames (Build testBuilder (PtrT nestedOptions) nestedRecord) \<noteq> Inr [''Outer.Inner.Leaf'']"
  by code_simp

subsection \<open>C4: errors of Parse\<close>

text \<open>
  C4. When the engine's parse of the arguments returns an error, \<^verbatim>\<open>Parse\<close> returns that
  error and the flags are exactly as the engine left them (no overlay). When it succeeds
  and environment support is enabled, every flag gets its overlay step whether or not an
  earlier step failed, and the error returned is the last of the overlay errors in visiting
  order; none when no step failed. The overlay errors are, in visiting order, one for each
  flag whose variable is non-empty and whose \<^verbatim>\<open>Set\<close> fails with \<open>e\<close>: the text
  \<^verbatim>\<open>on envvar \<close>, the name of the variable, \<^verbatim>\<open>=\<close>, its value, \<^verbatim>\<open>, \<close> and \<open>e\<close>.
\<close>

theorem C4_parse_errors:
  "(parseArgs E (flagSet fs) args = (Some err, p0) \<longrightarrow>
      Parse E env fs args = (Some err, fs\<lparr>flagSet := p0\<rparr>))
   \<and> (parseArgs E (flagSet fs') args' = (None, p1) \<and> EnvvarSupport (builder fs')
        \<and> distinct (map Name (formal p1)) \<longrightarrow>
      formal (flagSet (snd (Parse E env fs' args'))) = map (overlaid E env (builder fs')) (formal p1)
      \<and> fst (Parse E env fs' args') =
          (if overlayErrors E env (builder fs') (VisitAll p1) = [] then None
           else Some (last (overlayErrors E env (builder fs') (VisitAll p1))))
      \<and> overlayErrors E env (builder fs') (VisitAll p1) =
          concat (map (\<lambda>f.
             if Getenv env (EnvNameFunc (builder fs') (EnvPrefix (builder fs')) (Name f)) = [] then []
             else (case fst (setFlag E f (Getenv env (EnvNameFunc (builder fs') (EnvPrefix (builder fs')) (Name f)))) of
                     None \<Rightarrow> []
                   | Some e \<Rightarrow>
                       [''on envvar '' @ EnvNameFunc (builder fs') (EnvPrefix (builder fs')) (Name f)
                          @ ''='' @ Getenv env (EnvNameFunc (builder fs') (EnvPrefix (builder fs')) (Name f))
                          @ '', '' @ e]))
            (VisitAll p1)))"
proof (intro conjI impI)
  assume "parseArgs E (flagSet fs) args = (Some err, p0)"
  then show "Parse E env fs args = (Some err, fs\<lparr>flagSet := p0\<rparr>)"
    by (simp add: Parse_def)
next
  assume a: "parseArgs E (flagSet fs') args' = (None, p1) \<and> EnvvarSupport (builder fs')
        \<and> distinct (map Name (formal p1))"
  then have p: "Parse E env fs' args' =
     ((if overlayErrors E env (builder fs') (VisitAll p1) = [] then None
       else Some (last (overlayErrors E env (builder fs') (VisitAll p1)))),
      fs'\<lparr>flagSet := p1\<lparr>formal := map (overlaid E env (builder fs')) (formal p1)\<rparr>\<rparr>)"
    using Parse_ok [of E fs' args' p1 env] by blast
  show "formal (flagSet (snd (Parse E env fs' args'))) = map (overlaid E env (builder fs')) (formal p1)"
    unfolding p by simp
  show "fst (Parse E env fs' args') =
          (if overlayErrors E env (builder fs') (VisitAll p1) = [] then None
           else Some (last (overlayErrors E env (builder fs') (VisitAll p1))))"
    unfolding p by simp
next
  show "overlayErrors E env (builder fs') (VisitAll p1) =
          concat (map (\<lambda>f.
             if Getenv env (EnvNameFunc (builder fs') (EnvPrefix (builder fs')) (Name f)) = [] then []
             else (case fst (setFlag E f (Getenv env (EnvNameFunc (builder fs') (EnvPrefix (builder fs')) (Name f)))) of
                     None \<Rightarrow> []
                   | Some e \<Rightarrow>
                       [''on envvar '' @ EnvNameFunc (builder fs') (EnvPrefix (builder fs')) (Name f)
                          @ ''='' @ Getenv env (EnvNameFunc (builder fs') (EnvPrefix (builder fs')) (Name f))
                          @ '', '' @ e]))
            (VisitAll p1))"
    unfolding overlayErrors_def map_filter_concat
    by (rule arg_cong [where f = concat], rule map_cong [OF refl])
       (simp add: overlayError_def envNameOf_def split: option.splits)
qed

text \<open>
  C4 on \<open>exOptions\<close>: an unknown flag is returned at once; with three variables set, of which
  \<^verbatim>\<open>LOG_LEVEL\<close> and \<^verbatim>\<open>LOG_LEVEL_POINTER\<close> are refused, the flag \<^verbatim>\<open>name\<close>, visited last,
  still gets its value and the error is the one of \<^verbatim>\<open>LOG_LEVEL_POINTER\<close>.
\<close>

theorem C4_parse_errors_witness:
  "fst (Parse exEngine exEnv2 exFlagSet [''--nope'', ''x'']) = Some ''unknown flag: --nope''
   \<and> flagSet (snd (Parse exEngine exEnv2 exFlagSet [''--nope'', ''x''])) = flagSet exFlagSet
   \<and> map stored (formal (flagSet (snd (Parse exEngine exEnv2 exFlagSet [])))) =
        [Some (VString ''env''), Some (VString ''FOO''), None]
   \<and> fst (Parse exEngine exEnv2 exFlagSet []) =
        Some (''on envvar LOG_LEVEL_POINTER=info, ''
               @ setError (the (lookupFlag (flagSet exFlagSet) ''log-level-pointer'')) ''info''
                  ''nil is invalid for *structflag_test.LogLevel'')
   \<and> overlayErrors exEngine exEnv2 (builder exFlagSet) (VisitAll (flagSet exFlagSet)) =
        [''on envvar LOG_LEVEL=foo, ''
           @ setError (the (lookupFlag (flagSet exFlagSet) ''log-level'')) ''foo''
               ''FOO is an invalid value for structflag_test.LogLevel'',
         ''on envvar LOG_LEVEL_POINTER=info, ''
           @ setError (the (lookupFlag (flagSet exFlagSet) ''log-level-pointer'')) ''info''
               ''nil is invalid for *structflag_test.LogLevel'']"
proof -
  have h1: "parseArgs exEngine (flagSet exFlagSet) [''--nope'', ''x'']
              = (Some ''unknown flag: --nope'', flagSet exFlagSet)"
    by code_simp
  have h2: "parseArgs exEngine (flagSet exFlagSet) [] = (None, flagSet exFlagSet)"
    by code_simp
  have h3: "EnvvarSupport (builder exFlagSet)" by code_simp
  have h4: "distinct (map Name (formal (flagSet exFlagSet)))" by code_simp
  have v1: "map stored (map (overlaid exEngine exEnv2 (builder exFlagSet)) (formal (flagSet exFlagSet)))
              = [Some (VString ''env''), Some (VString ''FOO''), None]"
    by code_simp
  have v2: "concat (map (\<lambda>f.
             if Getenv exEnv2 (EnvNameFunc (builder exFlagSet) (EnvPrefix (builder exFlagSet)) (Name f)) = [] then []
             else (case fst (setFlag exEngine f (Getenv exEnv2 (EnvNameFunc (builder exFlagSet) (EnvPrefix (builder exFlagSet)) (Name f)))) of
                     None \<Rightarrow> []
                   | Some e \<Rightarrow>
                       [''on envvar '' @ EnvNameFunc (builder exFlagSet) (EnvPrefix (builder exFlagSet)) (Name f)
                          @ ''='' @ Getenv exEnv2 (EnvNameFunc (builder exFlagSet) (EnvPrefix (builder exFlagSet)) (Name f))
                          @ '', '' @ e]))
            (VisitAll (flagSet exFlagSet))) =
        [''on envvar LOG_LEVEL=foo, ''
           @ setError (the (lookupFlag (flagSet exFlagSet) ''log-level'')) ''foo''
               ''FOO is an invalid value for structflag_test.LogLevel'',
         ''on envvar LOG_LEVEL_POINTER=info, ''
           @ setError (the (lookupFlag (flagSet exFlagSet) ''log-level-pointer'')) ''info''
               ''nil is invalid for *structflag_test.LogLevel'']"
    by code_simp
  note c = C4_parse_errors [of exEngine exFlagSet "[''--nope'', ''x'']" "''unknown flag: --nope''"
      "flagSet exFlagSet" exEnv2 exFlagSet "[]" "flagSet exFlagSet"]
  from c h1 have a: "Parse exEngine exEnv2 exFlagSet [''--nope'', ''x'']
      = (Some ''unknown flag: --nope'', exFlagSet\<lparr>flagSet := flagSet exFlagSet\<rparr>)"
    by blast
  from c h2 h3 h4 have b: "formal (flagSet (snd (Parse exEngine exEnv2 exFlagSet []))) =
        map (overlaid exEngine exEnv2 (builder exFlagSet)) (formal (flagSet exFlagSet))"
    and b': "fst (Parse exEngine exEnv2 exFlagSet []) =
          (if overlayErrors exEngine exEnv2 (builder exFlagSet) (VisitAll (flagSet exFlagSet)) = [] then None
           else Some (last (overlayErrors exEngine exEnv2 (builder exFlagSet) (VisitAll (flagSet exFlagSet)))))"
    and b'': "overlayErrors exEngine exEnv2 (builder exFlagSet) (VisitAll (flagSet exFlagSet)) =
        [''on envvar LOG_LEVEL=foo, ''
           @ setError (the (lookupFlag (flagSet exFlagSet) ''log-level'')) ''foo''
               ''FOO is an invalid value for structflag_test.LogLevel'',
         ''on envvar LOG_LEVEL_POINTER=info, ''
           @ setError (the (lookupFlag (flagSet exFlagSet) ''log-level-pointer'')) ''info''
               ''nil is invalid for *structflag_test.LogLevel'']"
    unfolding v2 [symmetric] by blast+
  show ?thesis
    unfolding a b b' b'' v1 by simp
qed

subsection \<open>C5: sequence fields\<close>

text \<open>
  C5 as the specification words it fails on sequences of 64-bit unsigned integers: the
  case is commented out in \<^verbatim>\<open>walkField\<close> and such a field ends in the panic
  \<^verbatim>\<open>unsupported slice type\<close>.
\<close>

theorem C5_uint64_slice_rejected:
  "walkField testBuilder emptyFlagSet uint64SliceType (exValue (VSlice [VUint 1, VUint 2]) 0)
       (exContext ''nums'' [] True (exField ''Nums'' [] [(''flag'', ''nums'')] uint64SliceType))
     = Inl (UnsupportedSliceType uint64SliceType)
   \<and> isl (Build testBuilder (PtrT uintsOptions) uintsRecord)"
  by code_simp

text \<open>
  C5, as the code has it: for a sequence field whose element kind is boolean, 64-bit
  float, 64-bit or machine-width signed integer, duration, machine-width unsigned integer
  or text (and whose type has no custom-value capability), the walker registers the
  sequence flag of that element type under the field's name, bound to the field, with the
  field's contents read element by element as the default; the field is left as it was.
  A sequence of 64-bit unsigned integers is rejected with the panic
  \<^verbatim>\<open>unsupported slice type\<close>.
\<close>

theorem C5_slice_flags:
  "(\<not> implementsValue (SliceT i et) \<and> sliceOp et = Some op \<and> readSlice (Kind et) fv = Inr d
      \<and> addable fs (fieldname c) (shorthand c) \<longrightarrow>
        d = val fv \<and>
        walkField b fs (SliceT i et) fv c =
          Inr (fs\<lparr>formal := formal fs @ [newFlag c op (Some d) (Some (ptr fv, d))]\<rparr>, fv))
   \<and> (\<not> implementsValue (SliceT i' et') \<and> Kind et' = KUint64 \<longrightarrow>
        walkField b fs' (SliceT i' et') fv' c' = Inl (UnsupportedSliceType (SliceT i' et')))"
proof (intro conjI impI)
  assume a: "\<not> implementsValue (SliceT i et) \<and> sliceOp et = Some op \<and> readSlice (Kind et) fv = Inr d
      \<and> addable fs (fieldname c) (shorthand c)"
  then show d: "d = val fv" by (auto dest: readSlice_same)
  have "walkField b fs (SliceT i et) fv c = bindVar fs op fv c (Inr d)"
    using a by (simp add: walkField_SliceT bindLeaf_slice)
  also have "\<dots> = Inr (fs\<lparr>formal := formal fs @ [newFlag c op (Some d) (Some (ptr fv, d))]\<rparr>, fv\<lparr>val := d\<rparr>)"
    using a by (simp add: bindVar_ok)
  finally show "walkField b fs (SliceT i et) fv c =
          Inr (fs\<lparr>formal := formal fs @ [newFlag c op (Some d) (Some (ptr fv, d))]\<rparr>, fv)"
    using d by simp
next
  assume a: "\<not> implementsValue (SliceT i' et') \<and> Kind et' = KUint64"
  then have "sliceOp et' = None" by (simp add: sliceOp_def)
  then show "walkField b fs' (SliceT i' et') fv' c' = Inl (UnsupportedSliceType (SliceT i' et'))"
    using a by (simp add: walkField_SliceT bindLeaf_slice_unsupported)
qed

text \<open>
  C5 on a field \<^verbatim>\<open>Nums []int\<close> holding 20 and 30, and on a \<^verbatim>\<open>[]uint64\<close> in its place.
\<close>

theorem C5_slice_flags_witness:
  "walkField testBuilder emptyFlagSet intSliceType (exValue (VSlice [VInt 20, VInt 30]) 0)
       (exContext ''nums'' ''n'' True numsField)
     = Inr (emptyFlagSet\<lparr>formal := formal emptyFlagSet @
              [newFlag (exContext ''nums'' ''n'' True numsField) IntSliceVarP
                 (Some (VSlice [VInt 20, VInt 30])) (Some ([FieldAt 0], VSlice [VInt 20, VInt 30]))]\<rparr>,
            exValue (VSlice [VInt 20, VInt 30]) 0)
   \<and> walkField testBuilder emptyFlagSet uint64SliceType (exValue (VSlice [VUint 1]) 0)
       (exContext ''nums'' ''n'' True numsField)
     = Inl (UnsupportedSliceType uint64SliceType)"
proof -
  have h1: "\<not> implementsValue (SliceT anonType (Plain KInt (TInfo ''int'' NoValue None)))" by code_simp
  have h2: "sliceOp (Plain KInt (TInfo ''int'' NoValue None)) = Some IntSliceVarP" by code_simp
  have h3: "readSlice (Kind (Plain KInt (TInfo ''int'' NoValue None))) (exValue (VSlice [VInt 20, VInt 30]) 0)
              = Inr (VSlice [VInt 20, VInt 30])"
    by (simp add: readSlice_def exValue_def readAs_def)
  have h4: "addable emptyFlagSet (fieldname (exContext ''nums'' ''n'' True numsField))
              (shorthand (exContext ''nums'' ''n'' True numsField))"
    by (simp add: addable_def emptyFlagSet_def NewFlagSet_def exContext_def)
  have h5: "\<not> implementsValue (SliceT anonType (Plain KUint64 (TInfo ''uint64'' NoValue None)))" by code_simp
  have h6: "Kind (Plain KUint64 (TInfo ''uint64'' NoValue None)) = KUint64" by simp
  have p: "ptr (exValue (VSlice [VInt 20, VInt 30]) 0) = [FieldAt 0]" by (simp add: exValue_def)
  note c = C5_slice_flags [of anonType "Plain KInt (TInfo ''int'' NoValue None)" IntSliceVarP
      "exValue (VSlice [VInt 20, VInt 30]) 0" "VSlice [VInt 20, VInt 30]" emptyFlagSet
      "exContext ''nums'' ''n'' True numsField" testBuilder
      anonType "Plain KUint64 (TInfo ''uint64'' NoValue None)" emptyFlagSet
      "exValue (VSlice [VUint 1]) 0" "exContext ''nums'' ''n'' True numsField"]
  from c h1 h2 h3 h4 h5 h6 show ?thesis
    unfolding intSliceType_def uint64SliceType_def p by blast
qed

subsection \<open>C6: a custom value that refuses its text\<close>

text \<open>
  C6 as the specification words it fails for \<^verbatim>\<open>LogLevel\<close> of the tests, whose \<^verbatim>\<open>Set\<close>
  stores the upper-cased text before it validates it: after \<^verbatim>\<open>--log-level foo\<close> on a field
  holding \<^verbatim>\<open>WARN\<close>, \<^verbatim>\<open>Parse\<close> returns an error and the field holds \<^verbatim>\<open>FOO\<close>.
\<close>

theorem C6_prior_value_overwritten:
  "map_option stored (lookupFlag (flagSet exFlagSet) ''log-level'') = Some (Some (VString ''WARN''))
   \<and> fst (Parse exEngine noEnv exFlagSet [''--log-level'', ''foo'']) \<noteq> None
   \<and> map_option stored
        (lookupFlag (flagSet (snd (Parse exEngine noEnv exFlagSet [''--log-level'', ''foo'']))) ''log-level'')
       = Some (Some (VString ''FOO''))"
  by code_simp

text \<open>
  C6, as the code has it. Let the engine hand the text of an argument to \<^verbatim>\<open>Set\<close> of the
  flag \<open>f\<close> registered under \<open>n\<close>, and let that fail with \<open>err\<close>. Then \<^verbatim>\<open>Parse\<close> returns
  \<open>err\<close>; a flag bound through a nil pointer is still bound to nothing (the pointer field
  stays nil); a flag bound to storage holds what the value's own \<^verbatim>\<open>Set\<close> left there, which
  for \<^verbatim>\<open>LogLevel\<close> is the upper-cased text and not the prior value.
\<close>

theorem C6_custom_value_failure:
  assumes "lookupFlag (flagSet fs) n = Some f"
    and "distinct (map Name (formal (flagSet fs)))"
    and "parseArgs E (flagSet fs) args = FlagSet_Set E (flagSet fs) n text"
    and "fst (setFlag E f text) = Some err"
  shows "fst (Parse E env fs args) = Some err
       \<and> lookupFlag (flagSet (snd (Parse E env fs args))) n = Some (snd (setFlag E f text))
       \<and> (Bound f = None \<longrightarrow> Bound (snd (setFlag E f text)) = None)
       \<and> (\<forall>a x. Bound f = Some (a, x) \<longrightarrow>
             Bound (snd (setFlag E f text)) = Some (a, snd (valueSet E f text x)))
       \<and> snd (LogLevel_Set U (Some x0) text) = Some (VString (ToUpper U text))"
proof -
  have nf: "Name f = n" and fin: "f \<in> set (formal (flagSet fs))"
    using lookupFlag_Name [OF assms(1)] by simp_all
  let ?p = "(flagSet fs)\<lparr>formal := map (\<lambda>g. if Name g = n then snd (setFlag E f text) else g) (formal (flagSet fs))\<rparr>"
  have s: "FlagSet_Set E (flagSet fs) n text = (Some err, ?p)"
    using assms(1,4) by (simp add: FlagSet_Set_def)
  have P: "Parse E env fs args = (Some err, fs\<lparr>flagSet := ?p\<rparr>)"
    using assms(3) s by (simp add: Parse_def)
  have names: "map Name (formal ?p) = map Name (formal (flagSet fs))"
    using map_keeps_names [of "\<lambda>g. snd (setFlag E f text)" "\<lambda>g. Name g = n" "formal (flagSet fs)"] nf
    by (simp add: comp_def cong: map_cong)
  have d: "distinct (map Name (formal ?p))" by (simp only: names assms(2))
  have "snd (setFlag E f text) \<in> set (formal ?p)"
    using fin nf by (auto simp: image_iff intro!: bexI [of _ f])
  from lookupFlag_mem [OF d this] have l: "lookupFlag ?p n = Some (snd (setFlag E f text))"
    by (simp add: nf)
  have b1: "Bound f = None \<longrightarrow> Bound (snd (setFlag E f text)) = None"
    by (simp add: setFlag_def split: option.splits)
  have b2: "\<forall>a x. Bound f = Some (a, x) \<longrightarrow>
             Bound (snd (setFlag E f text)) = Some (a, snd (valueSet E f text x))"
    by (simp add: setFlag_def split: option.splits prod.splits)
  show ?thesis using P l b1 b2 by (simp add: LogLevel_Set_def)
qed

text \<open>
  C6 on \<open>exOptions\<close>: \<^verbatim>\<open>--log-level-pointer info\<close> on the nil pointer is refused and the
  pointer stays nil; \<^verbatim>\<open>--log-level foo\<close> is refused and leaves \<^verbatim>\<open>FOO\<close> in the field.
\<close>

theorem C6_custom_value_failure_witness:
  "fst (Parse exEngine noEnv exFlagSet [''--log-level-pointer'', ''info''])
     = Some (setError (the (lookupFlag (flagSet exFlagSet) ''log-level-pointer'')) ''info''
               ''nil is invalid for *structflag_test.LogLevel'')
   \<and> map_option Bound
        (lookupFlag (flagSet (snd (Parse exEngine noEnv exFlagSet [''--log-level-pointer'', ''info''])))
           ''log-level-pointer'') = Some None
   \<and> fst (Parse exEngine noEnv exFlagSet [''--log-level'', ''foo''])
     = Some (setError (the (lookupFlag (flagSet exFlagSet) ''log-level'')) ''foo''
               ''FOO is an invalid value for structflag_test.LogLevel'')
   \<and> map_option Bound
        (lookupFlag (flagSet (snd (Parse exEngine noEnv exFlagSet [''--log-level'', ''foo''])))
           ''log-level'') = Some (Some ([FieldAt 1], VString ''FOO''))"
proof -
  let ?fp = "the (lookupFlag (flagSet exFlagSet) ''log-level-pointer'')"
  let ?fl = "the (lookupFlag (flagSet exFlagSet) ''log-level'')"
  have a1: "lookupFlag (flagSet exFlagSet) ''log-level-pointer'' = Some ?fp" by code_simp
  have b1: "lookupFlag (flagSet exFlagSet) ''log-level'' = Some ?fl" by code_simp
  have h2: "distinct (map Name (formal (flagSet exFlagSet)))" by code_simp
  have a3: "parseArgs exEngine (flagSet exFlagSet) [''--log-level-pointer'', ''info'']
              = FlagSet_Set exEngine (flagSet exFlagSet) ''log-level-pointer'' ''info''"
    by code_simp
  have b3: "parseArgs exEngine (flagSet exFlagSet) [''--log-level'', ''foo'']
              = FlagSet_Set exEngine (flagSet exFlagSet) ''log-level'' ''foo''"
    by code_simp
  have a4: "fst (setFlag exEngine ?fp ''info'')
              = Some (setError ?fp ''info'' ''nil is invalid for *structflag_test.LogLevel'')"
    by code_simp
  have b4: "fst (setFlag exEngine ?fl ''foo'')
              = Some (setError ?fl ''foo'' ''FOO is an invalid value for structflag_test.LogLevel'')"
    by code_simp
  have a5: "Bound ?fp = None" by code_simp
  have b5: "Bound ?fl = Some ([FieldAt 1], VString ''WARN'')" by code_simp
  have b6: "snd (valueSet exEngine ?fl ''foo'' (VString ''WARN'')) = VString ''FOO''" by code_simp
  note A = C6_custom_value_failure [OF a1 h2 a3 a4, of noEnv]
  note B = C6_custom_value_failure [OF b1 h2 b3 b4, of noEnv]
  from A a5 have A': "fst (Parse exEngine noEnv exFlagSet [''--log-level-pointer'', ''info''])
     = Some (setError ?fp ''info'' ''nil is invalid for *structflag_test.LogLevel'')"
     "map_option Bound
        (lookupFlag (flagSet (snd (Parse exEngine noEnv exFlagSet [''--log-level-pointer'', ''info''])))
           ''log-level-pointer'') = Some None"
    by simp_all
  from B b5 b6 have B': "fst (Parse exEngine noEnv exFlagSet [''--log-level'', ''foo''])
     = Some (setError ?fl ''foo'' ''FOO is an invalid value for structflag_test.LogLevel'')"
    "map_option Bound
        (lookupFlag (flagSet (snd (Parse exEngine noEnv exFlagSet [''--log-level'', ''foo''])))
           ''log-level'') = Some (Some ([FieldAt 1], VString ''FOO''))"
    by simp_all
  from A' B' show ?thesis by simp
qed

subsection \<open>C7: unsupported field types\<close>

text \<open>
  C7. For a field that the walk does not skip, whose type has no custom-value capability
  and whose kind is neither a supported leaf, a pointer, a record nor a supported sequence,
  \<^verbatim>\<open>walkField\<close> panics with \<^verbatim>\<open>unsupported type\<close> (\<^verbatim>\<open>unsupported slice type\<close> for a
  sequence) whatever the flag set and the context; the walk over a record that has such a
  field does not return a flag set, and neither does \<^verbatim>\<open>Build\<close>, so there is nothing to
  hand to \<^verbatim>\<open>Parse\<close>.
\<close>

theorem C7_unsupported_panics:
  assumes "unsupportedKind (sfType rf)" and "\<not> implementsValue (sfType rf)"
    and "\<not> skipsField b rf" and "rf \<in> set sfs"
  shows "walkField b fs (sfType rf) fv c =
           Inl (if Kind (sfType rf) = KSlice then UnsupportedSliceType (sfType rf)
                else UnsupportedType (sfType rf))
         \<and> isl (walkFrom b fs sfs i rv pre)
         \<and> isl (Build b (PtrT (StructT ti sfs)) ov)"
proof -
  let ?rv = "\<lparr> val = (case ov of VPtr (Some x) \<Rightarrow> x | _ \<Rightarrow> VInvalid), ptr = [],
                stickyRO = False, embedRO = False \<rparr>"
  let ?fs = "NewFlagSet (if BuilderName b = [] then typeName (StructT ti sfs) else BuilderName b)
               (HandlingMode b)"
  have "isl (walkFrom b ?fs sfs 0 ?rv [])"
    using walkFrom_unsupported [OF assms(4,3,1,2)] .
  then obtain p where "walk b ?fs (StructT ti sfs) ?rv [] = Inl p"
    by (auto simp: walk_def isl_def)
  then have "Build b (PtrT (StructT ti sfs)) ov = Inl p"
    by (simp add: Build_def Let_def)
  then show ?thesis
    using walkField_unsupported [OF assms(1,2)] walkFrom_unsupported [OF assms(4,3,1,2)] by simp
qed

text \<open>
  C7 on a record with a text field and a map field.
\<close>

theorem C7_unsupported_panics_witness:
  "walkField testBuilder emptyFlagSet mapType (exValue VOpaque 0)
       (exContext ''Table'' [] False (exField ''Table'' [] [] mapType))
     = Inl (UnsupportedType mapType)
   \<and> isl (Build testBuilder (PtrT (StructT (TInfo ''Options'' NoValue None)
              [exField ''Name'' [] [] stringType, exField ''Table'' [] [] mapType]))
           (VPtr (Some (VStruct [VString [], VOpaque]))))"
proof -
  have h1: "unsupportedKind (sfType (exField ''Table'' [] [] mapType))" by code_simp
  have h2: "\<not> implementsValue (sfType (exField ''Table'' [] [] mapType))" by code_simp
  have h3: "\<not> skipsField testBuilder (exField ''Table'' [] [] mapType)" by code_simp
  have h4: "exField ''Table'' [] [] mapType \<in> set [exField ''Name'' [] [] stringType, exField ''Table'' [] [] mapType]"
    by simp
  have t: "sfType (exField ''Table'' [] [] mapType) = mapType" by (simp add: exField_def)
  have k: "Kind mapType \<noteq> KSlice" by (simp add: mapType_def)
  from C7_unsupported_panics [OF h1 h2 h3 h4, unfolded t] k show ?thesis by simp
qed

subsection \<open>C8: defaults of leaf fields\<close>

text \<open>
  C8. For a field of a supported leaf kind (no custom-value capability, name free in the
  flag set) the walker registers the flag with the field's current value as default and
  bound to the field. If the engine's parse of the arguments leaves that flag as it was
  registered (no argument matched it) and the variable derived from its name is unset or
  empty, then after \<^verbatim>\<open>Parse\<close> the field holds the value it had at \<^verbatim>\<open>Build\<close>.
\<close>

theorem C8_default_kept:
  assumes "leafOp rt = Some op" and "\<not> implementsValue rt"
    and "readAs (Kind rt) (val fv) = Inr d"
    and "addable fs (fieldname c) (shorthand c)"
  shows "walkField b fs rt fv c =
           Inr (fs\<lparr>formal := formal fs @ [newFlag c op (Some (val fv)) (Some (ptr fv, val fv))]\<rparr>, fv)
         \<and> Default (newFlag c op (Some (val fv)) (Some (ptr fv, val fv))) = Some (val fv)
         \<and> (\<forall>(E::engine) env (F::FlagSet) args e p1.
              parseArgs E (flagSet F) args = (e, p1) \<and> distinct (map Name (formal p1))
              \<and> newFlag c op (Some (val fv)) (Some (ptr fv, val fv)) \<in> set (formal p1)
              \<and> Getenv env (EnvNameFunc (builder F) (EnvPrefix (builder F)) (fieldname c)) = []
              \<longrightarrow> map_option stored (lookupFlag (flagSet (snd (Parse E env F args))) (fieldname c))
                    = Some (Some (val fv)))"
proof (intro conjI allI impI)
  show "walkField b fs rt fv c =
           Inr (fs\<lparr>formal := formal fs @ [newFlag c op (Some (val fv)) (Some (ptr fv, val fv))]\<rparr>, fv)"
    using assms by (rule walkField_leaf)
  show "Default (newFlag c op (Some (val fv)) (Some (ptr fv, val fv))) = Some (val fv)"
    by (simp add: newFlag_def)
next
  fix E :: engine and env and F :: FlagSet and args e p1
  let ?f = "newFlag c op (Some (val fv)) (Some (ptr fv, val fv))"
  assume a: "parseArgs E (flagSet F) args = (e, p1) \<and> distinct (map Name (formal p1))
              \<and> ?f \<in> set (formal p1)
              \<and> Getenv env (EnvNameFunc (builder F) (EnvPrefix (builder F)) (fieldname c)) = []"
  have n: "Name ?f = fieldname c" by (simp add: newFlag_def)
  have ov: "overlaid E env (builder F) ?f = ?f"
    using a by (simp add: overlaid_def envNameOf_def n)
  have "lookupFlag (flagSet (snd (Parse E env F args))) (Name ?f) = Some ?f"
  proof (cases "e = None \<and> EnvvarSupport (builder F)")
    case True
    have fm: "formal (flagSet (snd (Parse E env F args))) = map (overlaid E env (builder F)) (formal p1)"
      using Parse_ok [of E F args p1 env] a True by simp
    have dd: "distinct (map Name (formal (flagSet (snd (Parse E env F args)))))"
      using a by (simp add: fm comp_def)
    have "overlaid E env (builder F) ?f \<in> set (formal (flagSet (snd (Parse E env F args))))"
      using a by (simp add: fm)
    then have "?f \<in> set (formal (flagSet (snd (Parse E env F args))))" by (simp only: ov)
    from lookupFlag_mem [OF dd this] show ?thesis .
  next
    case False
    then have "flagSet (snd (Parse E env F args)) = p1"
      using a by (cases e) (auto simp: Parse_def)
    then show ?thesis using a lookupFlag_mem [of p1 ?f] by simp
  qed
  then show "map_option stored (lookupFlag (flagSet (snd (Parse E env F args))) (fieldname c))
                    = Some (Some (val fv))"
    by (simp add: n) (simp add: stored_def newFlag_def)
qed

text \<open>
  C8 on a text field \<^verbatim>\<open>name\<close> holding \<^verbatim>\<open>foo\<close>: the arguments and the environment set
  the other flag only, and \<^verbatim>\<open>name\<close> still holds \<^verbatim>\<open>foo\<close>.
\<close>

theorem C8_default_kept_witness:
  "walkField exBuilder emptyFlagSet stringType (exValue (VString ''foo'') 0) nameContext
     = Inr (emptyFlagSet\<lparr>formal := formal emptyFlagSet @
              [newFlag nameContext StringVarP (Some (VString ''foo'')) (Some ([FieldAt 0], VString ''foo''))]\<rparr>,
            exValue (VString ''foo'') 0)
   \<and> map_option stored
        (lookupFlag (flagSet (snd (Parse exEngine otherEnv twoFlagSet [''--other'', ''x'']))) ''name'')
       = Some (Some (VString ''foo''))
   \<and> map_option stored
        (lookupFlag (flagSet (snd (Parse exEngine otherEnv twoFlagSet [''--other'', ''x'']))) ''other'')
       = Some (Some (VString ''y''))"
proof -
  have h1: "leafOp stringType = Some StringVarP" by code_simp
  have h2: "\<not> implementsValue stringType" by code_simp
  have h3: "readAs (Kind stringType) (val (exValue (VString ''foo'') 0)) = Inr (VString ''foo'')"
    by code_simp
  have h4: "addable emptyFlagSet (fieldname nameContext) (shorthand nameContext)"
    by (simp add: addable_def emptyFlagSet_def NewFlagSet_def nameContext_def exContext_def)
  have v: "val (exValue (VString ''foo'') 0) = VString ''foo''" "ptr (exValue (VString ''foo'') 0) = [FieldAt 0]"
    by (simp_all add: exValue_def)
  have n: "fieldname nameContext = ''name''" by (simp add: nameContext_def exContext_def)
  have p1: "parseArgs exEngine (flagSet twoFlagSet) [''--other'', ''x''] = (None, twoAfterCli)"
  proof (rule prod_eqI)
    show "fst (parseArgs exEngine (flagSet twoFlagSet) [''--other'', ''x'']) = fst (None, twoAfterCli)"
      by code_simp
  qed (simp add: twoAfterCli_def)
  have p2: "distinct (map Name (formal twoAfterCli))" by code_simp
  have p3: "newFlag nameContext StringVarP (Some (VString ''foo'')) (Some ([FieldAt 0], VString ''foo''))
              \<in> set (formal twoAfterCli)"
    by code_simp
  have p4: "Getenv otherEnv (EnvNameFunc (builder twoFlagSet) (EnvPrefix (builder twoFlagSet)) ''name'') = []"
    by code_simp
  have o: "map_option stored
        (lookupFlag (flagSet (snd (Parse exEngine otherEnv twoFlagSet [''--other'', ''x'']))) ''other'')
       = Some (Some (VString ''y''))"
    by code_simp
  note c = C8_default_kept [OF h1 h2 h3 h4, of exBuilder, unfolded v n]
  from c have a: "walkField exBuilder emptyFlagSet stringType (exValue (VString ''foo'') 0) nameContext
     = Inr (emptyFlagSet\<lparr>formal := formal emptyFlagSet @
              [newFlag nameContext StringVarP (Some (VString ''foo'')) (Some ([FieldAt 0], VString ''foo''))]\<rparr>,
            exValue (VString ''foo'') 0)"
    by blast
  from c p1 p2 p3 p4 have b: "map_option stored
        (lookupFlag (flagSet (snd (Parse exEngine otherEnv twoFlagSet [''--other'', ''x'']))) ''name'')
       = Some (Some (VString ''foo''))"
    by blast
  from a b o show ?thesis by simp
qed

subsection \<open>C9: unexported fields\<close>




subsection \<open>C10: the capability check comes first\<close>




end
